theory Spec2Isabelle
  imports Main
begin

text \<open>
  A model of the StickyMessages addon and of the version checker shipped with it.
  The message handler and the webhook sweep are those of \<^verbatim>\<open>src/unnamed/part_000\<close>; the
  version checker is the class of \<^verbatim>\<open>src/VersionChecker.js\<close>, and the \<^verbatim>\<open>/sticky\<close> command
  is the module that follows it in the same file. Line numbers refer to these files.

  Every call of the chat platform, of the network and of the clock is an answer given
  from outside: a run takes the answers as a parameter and returns, next to its result,
  the store it leaves and the calls it made. A rejected promise that no handler catches
  ends the run with its reason. Runs are taken one at a time; the database itself does
  not fail. The handler and the sweep are registered only when \<^verbatim>\<open>config.Enabled\<close> is
  truthy (line 10); what is modelled is what they do once registered, whenever they run.
\<close>

section \<open>Sticky records and the record store\<close>

text \<open>
  A document of \<^verbatim>\<open>StickyModel\<close>, with the fields the sources read and write.
  \<open>rid\<close> is the document's \<^verbatim>\<open>_id\<close>. \<open>msgCount\<close> is created as 0 and only ever
  incremented by one or set to 0, so it is a natural number. A field that may hold
  \<^verbatim>\<open>null\<close> is an option.
\<close>

record sticky =
  rid :: nat
  channelId :: string
  message :: string
  msgCount :: nat
  messageId :: "string option"
  useWebhook :: bool
  webhookId :: "string option"
  webhookToken :: "string option"
  webhookName :: "string option"
  webhookAvatarURL :: "string option"

text \<open>JavaScript truthiness of a string-or-null value: \<^verbatim>\<open>null\<close> and \<^verbatim>\<open>""\<close> are falsy.\<close>

fun truthy :: "string option \<Rightarrow> bool" where
  "truthy None = False"
| "truthy (Some s) = (s \<noteq> [])"

text \<open>\<^verbatim>\<open>a || b\<close> on string-or-null values.\<close>

definition or_else :: "string option \<Rightarrow> string option \<Rightarrow> string option" where
  "or_else a b = (if truthy a then a else b)"

text \<open>
  The collection is the list of its documents, in the order \<^verbatim>\<open>find()\<close> returns them.
  \<^verbatim>\<open>findOne({channelId})\<close> returns the first match, \<^verbatim>\<open>findByIdAndUpdate\<close> changes
  the first document with that \<^verbatim>\<open>_id\<close>, \<^verbatim>\<open>findOneAndDelete({channelId})\<close> removes
  the first match. Database failures are not modelled.
\<close>

type_synonym store = "sticky list"

definition findOne :: "string \<Rightarrow> store \<Rightarrow> sticky option" where
  "findOne c st = find (\<lambda>r. channelId r = c) st"

fun findByIdAndUpdate :: "nat \<Rightarrow> (sticky \<Rightarrow> sticky) \<Rightarrow> store \<Rightarrow> store" where
  "findByIdAndUpdate i f [] = []"
| "findByIdAndUpdate i f (r # st) =
     (if rid r = i then f r # st else r # findByIdAndUpdate i f st)"

fun findOneAndDelete :: "string \<Rightarrow> store \<Rightarrow> store" where
  "findOneAndDelete c [] = []"
| "findOneAndDelete c (r # st) =
     (if channelId r = c then st else r # findOneAndDelete c st)"

definition findById :: "nat \<Rightarrow> store \<Rightarrow> sticky option" where
  "findById i st = find (\<lambda>r. rid r = i) st"

section \<open>Configuration\<close>

text \<open>
  The part of \<^verbatim>\<open>config.yml\<close> the modelled code reads. \<open>EnableEmbeds\<close> is tested for
  truthiness by the message handler and with \<^verbatim>\<open>=== true\<close> / \<^verbatim>\<open>=== false\<close> by the
  command, so it has a third value for anything that is neither boolean.
  The embed decoration (title, colour, footer) is constant per configuration; a rendered
  embed is represented by its description. The setters that build this embed from the
  configuration and the sticky body (lines 81 to 93 and 499 to 507) are taken to accept
  what they are given: a body is stored only after line 501 has accepted it. The fields
  of the listing are validated, see \<open>addFields\<close>.
\<close>

datatype flag = Yes | No | Other bool

fun flag_truthy :: "flag \<Rightarrow> bool" where
  "flag_truthy Yes = True"
| "flag_truthy No = False"
| "flag_truthy (Other b) = b"

record webhooks_config =
  Name :: "string option"
  AvatarURL :: "string option"
  EnabledByDefault :: bool

record config =
  Enabled :: flag
  MaxMessages :: int
  EnableEmbeds :: flag
  StickiedMessageTitle :: string
  Webhooks :: "webhooks_config option"

text \<open>\<^verbatim>\<open>config.Webhooks && config.Webhooks.Name\<close> and its sibling for the avatar.\<close>

definition config_hook_name :: "config \<Rightarrow> string option" where
  "config_hook_name cfg = (case Webhooks cfg of None \<Rightarrow> None | Some w \<Rightarrow> Name w)"

definition config_hook_avatar :: "config \<Rightarrow> string option" where
  "config_hook_avatar cfg = (case Webhooks cfg of None \<Rightarrow> None | Some w \<Rightarrow> AvatarURL w)"

section \<open>The chat platform as seen by one handler run\<close>

datatype payload = Embeds string | Content string

text \<open>\<^verbatim>\<open>`${config.StickiedMessageTitle}\n\n${stickyMessage.message}`\<close>\<close>

definition text_payload :: "config \<Rightarrow> string \<Rightarrow> payload" where
  "text_payload cfg body = Content (StickiedMessageTitle cfg @ [CHR 0x0A, CHR 0x0A] @ body)"

definition render :: "config \<Rightarrow> string \<Rightarrow> payload" where
  "render cfg body = (if flag_truthy (EnableEmbeds cfg) then Embeds body else text_payload cfg body)"

text \<open>
  What \<^verbatim>\<open>hookClient.send\<close> resolves to: one message, or a non-empty array of them,
  of which the handler keeps the first (\<^verbatim>\<open>Array.isArray(res) ? res[0] : res\<close>).
  A message is represented by its id.
\<close>

datatype sent = Single string | Batch string "string list"

fun first_sent :: "sent \<Rightarrow> string" where
  "first_sent (Single i) = i"
| "first_sent (Batch i _) = i"

text \<open>A message of the channel history: id, content, descriptions of its embeds.\<close>

record history_message =
  hid :: string
  content :: string
  embeds :: "string option list"

text \<open>
  The answers of the outside world during one run of the handler: the two readings of
  \<^verbatim>\<open>Date.now()\<close> and the outcome of each platform call. A rejected promise is
  \<open>Inl\<close> of its reason. \<open>fetch_message\<close> tells whether the fetch of a message by id
  resolves, \<open>delete_message\<close> whether its deletion does; the handler catches and drops
  both rejections, so no definition below reads \<open>delete_message\<close>.
\<close>

record world =
  now_check :: int
  now_set :: int
  fetch_message :: "string \<Rightarrow> bool"
  delete_message :: "string \<Rightarrow> bool"
  fetch_history :: "string + history_message list"
  hook_send :: "string \<Rightarrow> string \<Rightarrow> payload \<Rightarrow> string + sent"
  channel_send :: "payload \<Rightarrow> string + string"

datatype call =
    FetchMessage string
  | DeleteMessage string
  | FetchHistory
  | WebhookSend string string payload
  | ChannelSend payload

datatype failure = HistoryFetchFailed string | DispatchFailed string

section \<open>The \<^verbatim>\<open>messageCreate\<close> handler\<close>

record message_event =
  author_id :: string
  client_user_id :: string
  in_guild :: bool
  channel_id :: string

record handler_state =
  records :: store
  cooldowns :: "string \<rightharpoonup> int"

record outcome =
  result :: "failure + unit"
  after :: handler_state
  calls :: "call list"

text \<open>\<^verbatim>\<open>s.includes(t)\<close>: \<open>t\<close> occurs in \<open>s\<close> as a contiguous run.\<close>

fun starts_with :: "string \<Rightarrow> string \<Rightarrow> bool" where
  "starts_with s [] = True"
| "starts_with [] (c # t) = False"
| "starts_with (d # s) (c # t) = (d = c \<and> starts_with s t)"

fun str_includes :: "string \<Rightarrow> string \<Rightarrow> bool" where
  "str_includes [] t = (t = [])"
| "str_includes (d # s) t = (starts_with (d # s) t \<or> str_includes s t)"

text \<open>The test of the fallback scan (lines 72 to 75) on one message of the history.\<close>

definition matches_sticky :: "config \<Rightarrow> string \<Rightarrow> history_message \<Rightarrow> bool" where
  "matches_sticky cfg body msg =
     ((\<not> flag_truthy (EnableEmbeds cfg) \<and> content msg \<noteq> [] \<and> str_includes (content msg) body)
      \<or> (flag_truthy (EnableEmbeds cfg)
          \<and> list_ex (\<lambda>d. truthy d \<and> str_includes (the d) body) (embeds msg)))"

text \<open>
  Removal of the previous artifact (lines 66 to 79). With a stored \<open>messageId\<close> the
  message is fetched and deleted, both failures caught. Without one the channel history
  is fetched, with no handler for a rejection, and every matching message is deleted,
  each failure caught.
\<close>

definition delete_previous :: "config \<Rightarrow> world \<Rightarrow> sticky \<Rightarrow> string + call list" where
  "delete_previous cfg w sm =
     (if truthy (messageId sm) then
        (let i = the (messageId sm) in
         Inr (FetchMessage i # (if fetch_message w i then [DeleteMessage i] else [])))
      else
        (case fetch_history w of
           Inl e \<Rightarrow> Inl e
         | Inr msgs \<Rightarrow>
             Inr (FetchHistory #
                  map (\<lambda>m. DeleteMessage (hid m)) (filter (matches_sticky cfg (message sm)) msgs))))"

text \<open>
  Dispatch (lines 95 to 119): through the webhook when the record asks for it and holds
  an id and a token, with the direct post in the \<^verbatim>\<open>catch\<close>; the direct post
  otherwise. Returns the calls made and the id of the message sent.
\<close>

definition direct_post :: "world \<Rightarrow> payload \<Rightarrow> call list \<times> (string + string)" where
  "direct_post w p = ([ChannelSend p], channel_send w p)"

definition dispatch :: "config \<Rightarrow> world \<Rightarrow> sticky \<Rightarrow> call list \<times> (string + string)" where
  "dispatch cfg w sm =
     (let p = render cfg (message sm) in
      if useWebhook sm \<and> truthy (webhookId sm) \<and> truthy (webhookToken sm) then
        (let i = the (webhookId sm); t = the (webhookToken sm) in
         case hook_send w i t p of
           Inr res \<Rightarrow> ([WebhookSend i t p], Inr (first_sent res))
         | Inl _ \<Rightarrow> (WebhookSend i t p # fst (direct_post w p), snd (direct_post w p)))
      else direct_post w p)"

text \<open>
  The body of \<^verbatim>\<open>if (stickyMessage.msgCount >= config.MaxMessages)\<close>, lines 66 to 121.
  \<open>sm\<close> is the document read at line 57; \<open>s\<close> holds the store and the cooldowns at
  this point.
\<close>

definition repost ::
  "config \<Rightarrow> world \<Rightarrow> sticky \<Rightarrow> handler_state \<Rightarrow> outcome" where
  "repost cfg w sm s =
     (case delete_previous cfg w sm of
        Inl e \<Rightarrow> \<lparr>result = Inl (HistoryFetchFailed e), after = s, calls = [FetchHistory]\<rparr>
      | Inr dels \<Rightarrow>
          (case dispatch cfg w sm of
             (cs, Inl e) \<Rightarrow> \<lparr>result = Inl (DispatchFailed e), after = s, calls = dels @ cs\<rparr>
           | (cs, Inr new_id) \<Rightarrow>
               \<lparr>result = Inr (),
                after = s\<lparr>records :=
                  findByIdAndUpdate (rid sm)
                    (\<lambda>r. r\<lparr>msgCount := 0, messageId := Some new_id\<rparr>) (records s)\<rparr>,
                calls = dels @ cs\<rparr>))"

text \<open>The threshold decision of line 65, on the document read at line 57.\<close>

definition reconcile ::
  "config \<Rightarrow> world \<Rightarrow> sticky \<Rightarrow> handler_state \<Rightarrow> outcome" where
  "reconcile cfg w sm s =
     (if MaxMessages cfg \<le> int (msgCount sm) then repost cfg w sm s
      else \<lparr>result = Inr (), after = s, calls = []\<rparr>)"

text \<open>Line 62: no entry for the channel, or an entry that is not in the future.\<close>

definition gate_open :: "(string \<rightharpoonup> int) \<Rightarrow> string \<Rightarrow> int \<Rightarrow> bool" where
  "gate_open cd c now = (case cd c of None \<Rightarrow> True | Some t \<Rightarrow> t \<le> now)"

text \<open>Line 55: the events the handler ignores.\<close>

definition ignored :: "message_event \<Rightarrow> bool" where
  "ignored m = (author_id m = client_user_id m \<or> \<not> in_guild m)"

definition increment :: "sticky \<Rightarrow> sticky" where
  "increment r = r\<lparr>msgCount := msgCount r + 1\<rparr>"

definition messageCreate ::
  "config \<Rightarrow> world \<Rightarrow> message_event \<Rightarrow> handler_state \<Rightarrow> outcome" where
  "messageCreate cfg w m s =
     (if ignored m then \<lparr>result = Inr (), after = s, calls = []\<rparr>
      else
        (case findOne (channel_id m) (records s) of
           None \<Rightarrow> \<lparr>result = Inr (), after = s, calls = []\<rparr>
         | Some sm \<Rightarrow>
             (let s1 = s\<lparr>records := findByIdAndUpdate (rid sm) increment (records s)\<rparr> in
              if gate_open (cooldowns s) (channel_id m) (now_check w) then
                reconcile cfg w sm
                  (s1\<lparr>cooldowns := (cooldowns s)(channel_id m \<mapsto> now_set w + 1 * 1000)\<rparr>)
              else \<lparr>result = Inr (), after = s1, calls = []\<rparr>)))"

section \<open>The webhook sweep \<^verbatim>\<open>ensureWebhooks\<close>\<close>

text \<open>
  The platform's webhooks are a state \<open>'p\<close> of which the sweep knows only what its two
  calls return: \<^verbatim>\<open>channel.fetchWebhooks()\<close> resolves to the ids of the channel's
  webhooks or rejects, \<^verbatim>\<open>channel.createWebhook(...)\<close> resolves to an id and a token
  or rejects, and changes the platform. \<open>cached\<close> tells whether
  \<^verbatim>\<open>client.channels.cache.get(rec.channelId)\<close> finds the channel.
\<close>

record created_hook =
  hook_id :: string
  hook_token :: "string option"

record 'p webhook_api =
  cached :: "string \<Rightarrow> bool"
  fetchWebhooks :: "'p \<Rightarrow> string \<Rightarrow> string + string list"
  createWebhook :: "'p \<Rightarrow> string \<Rightarrow> string \<Rightarrow> string option \<Rightarrow> (string + created_hook) \<times> 'p"

datatype hook_call = CreateWebhook string string "string option"

text \<open>
  The state of a sweep: the store, the platform, and the creation calls made so far,
  each with the \<^verbatim>\<open>_id\<close> of the document it was made for.
\<close>

record 'p sweep_state =
  sw_records :: store
  sw_platform :: 'p
  sw_calls :: "(nat \<times> hook_call) list"

text \<open>Lines 18 to 29.\<close>

definition needCreate :: "'p webhook_api \<Rightarrow> 'p \<Rightarrow> sticky \<Rightarrow> bool" where
  "needCreate api p rec =
     (if \<not> truthy (webhookId rec) \<or> \<not> truthy (webhookToken rec) then True
      else (case fetchWebhooks api p (channelId rec) of
              Inl _ \<Rightarrow> True
            | Inr hooks \<Rightarrow> \<not> list_ex (\<lambda>h. Some h = webhookId rec) hooks))"

text \<open>Lines 31 and 32.\<close>

definition sweep_hook_name :: "config \<Rightarrow> sticky \<Rightarrow> string" where
  "sweep_hook_name cfg rec =
     (case or_else (webhookName rec) (config_hook_name cfg) of
        None \<Rightarrow> ''Sticky''
      | Some n \<Rightarrow> (if n = [] then ''Sticky'' else n))"

definition sweep_hook_avatar :: "config \<Rightarrow> sticky \<Rightarrow> string option" where
  "sweep_hook_avatar cfg rec =
     (let a = or_else (webhookAvatarURL rec) (config_hook_avatar cfg)
      in if truthy a then a else None)"

text \<open>
  The loop body, lines 16 to 42, for one document of the snapshot returned by
  \<^verbatim>\<open>find({ useWebhook: true })\<close>. A rejected creation is caught and leaves the store
  as it was.
\<close>

definition ensure_record ::
  "'p webhook_api \<Rightarrow> config \<Rightarrow> sticky \<Rightarrow> 'p sweep_state \<Rightarrow> 'p sweep_state" where
  "ensure_record api cfg rec s =
     (if \<not> cached api (channelId rec) then s
      else if needCreate api (sw_platform s) rec then
        (let name = sweep_hook_name cfg rec;
             avatarURL = sweep_hook_avatar cfg rec;
             logged = sw_calls s @ [(rid rec, CreateWebhook (channelId rec) name avatarURL)]
         in case createWebhook api (sw_platform s) (channelId rec) name avatarURL of
              (Inl _, p') \<Rightarrow> s\<lparr>sw_platform := p', sw_calls := logged\<rparr>
            | (Inr created, p') \<Rightarrow>
                \<lparr>sw_records =
                   findByIdAndUpdate (rid rec)
                     (\<lambda>r. r\<lparr>webhookId := Some (hook_id created),
                             webhookToken := hook_token created,
                             webhookName := Some name,
                             webhookAvatarURL := avatarURL\<rparr>)
                     (sw_records s),
                 sw_platform = p', sw_calls = logged\<rparr>)
      else s)"

definition ensureWebhooks ::
  "'p webhook_api \<Rightarrow> config \<Rightarrow> store \<Rightarrow> 'p \<Rightarrow> 'p sweep_state" where
  "ensureWebhooks api cfg st p =
     fold (ensure_record api cfg) (filter useWebhook st)
       \<lparr>sw_records = st, sw_platform = p, sw_calls = []\<rparr>"

section \<open>The \<^verbatim>\<open>/sticky\<close> command\<close>

datatype subcommand = Create string "bool option" | Delete | List

record interaction =
  can_manage_messages :: bool
  can_manage_webhooks :: bool
  interaction_channel :: string
  sub :: subcommand

text \<open>
  The replies of the command. A listing is the embed's fields, three for each record
  shown: the channel's name, the message, and \<^verbatim>\<open>'Yes'\<close> or \<^verbatim>\<open>'No'\<close>.
\<close>

datatype reply =
    NoPermission
  | DisabledInConfig
  | AlreadySticky
  | NeedManageWebhooks
  | StickySet
  | NoStickyHere
  | StickyDeleted
  | NoActiveStickies
  | Listing "(string \<times> string) list"

text \<open>
  The answers of the outside world during one run of the command: the name of a cached
  channel (\<open>None\<close> when \<^verbatim>\<open>client.channels.cache.get\<close> finds nothing) and the outcome
  of each platform call on the interaction's channel.
\<close>

record command_world =
  channel_name :: "string \<Rightarrow> string option"
  cmd_create_webhook :: "string \<Rightarrow> string option \<Rightarrow> string + created_hook"
  cmd_hook_send :: "created_hook \<Rightarrow> payload \<Rightarrow> string + sent"
  cmd_channel_send :: "payload \<Rightarrow> string + string"
  cmd_fetch_history :: "string + history_message list"

record command_outcome =
  replied :: "string + reply"
  stored :: store

text \<open>\<^verbatim>\<open>msg.replace(/\\n/g, '\n')\<close>: a backslash followed by \<open>n\<close> becomes a newline.\<close>

fun unescape_newlines :: "string \<Rightarrow> string" where
  "unescape_newlines (a # b # s) =
     (if a = CHR 0x5C \<and> b = CHR ''n'' then CHR 0x0A # unescape_newlines s
      else a # unescape_newlines (b # s))"
| "unescape_newlines s = s"

text \<open>The \<^verbatim>\<open>_id\<close> the database gives a new document: one that no document has.\<close>

fun fresh_rid :: "store \<Rightarrow> nat" where
  "fresh_rid [] = 0"
| "fresh_rid (r # st) = max (Suc (rid r)) (fresh_rid st)"

text \<open>\<^verbatim>\<open>sentMessage?.id || null\<close>, where an array has no \<^verbatim>\<open>id\<close>.\<close>

fun sent_id :: "sent option \<Rightarrow> string option" where
  "sent_id (Some (Single i)) = (if i = [] then None else Some i)"
| "sent_id _ = None"

text \<open>
  Lines 509 to 533 of the \<^verbatim>\<open>create\<close> branch: the optional webhook, its first send,
  and the direct post when nothing was sent. Returns the message sent (if any), the
  final \<open>useWebhook\<close> and the webhook data, or the reason of an uncaught rejection.
\<close>

definition first_post ::
  "config \<Rightarrow> command_world \<Rightarrow> string \<Rightarrow> bool \<Rightarrow>
     string + (sent option \<times> bool \<times> created_hook option \<times> string option \<times> string option)" where
  "first_post cfg w msg use_hook =
     (let webhookName = (if truthy (config_hook_name cfg) then the (config_hook_name cfg) else ''Sticky'');
          avatarURL = (if truthy (config_hook_avatar cfg) then config_hook_avatar cfg else None);
          via_hook =
            (if use_hook then
               (case cmd_create_webhook w webhookName avatarURL of
                  Inl e \<Rightarrow> Inl e
                | Inr createdHook \<Rightarrow>
                    (case (if EnableEmbeds cfg = Yes then cmd_hook_send w createdHook (Embeds msg)
                           else cmd_hook_send w createdHook (text_payload cfg msg)) of
                       Inl _ \<Rightarrow> Inr (None, False, None, None, None)
                     | Inr sentMessage \<Rightarrow>
                         Inr (Some sentMessage, True, Some createdHook, Some webhookName, avatarURL)))
             else Inr (None, False, None, None, None))
      in case via_hook of
           Inl e \<Rightarrow> Inl e
         | Inr (Some sentMessage, rest) \<Rightarrow> Inr (Some sentMessage, rest)
         | Inr (None, rest) \<Rightarrow>
             (case EnableEmbeds cfg of
                No \<Rightarrow> (case cmd_channel_send w (text_payload cfg msg) of
                         Inl e \<Rightarrow> Inl e | Inr i \<Rightarrow> Inr (Some (Single i), rest))
              | Yes \<Rightarrow> (case cmd_channel_send w (Embeds msg) of
                          Inl e \<Rightarrow> Inl e | Inr i \<Rightarrow> Inr (Some (Single i), rest))
              | Other _ \<Rightarrow> Inr (None, rest)))"

definition execute_create ::
  "config \<Rightarrow> command_world \<Rightarrow> interaction \<Rightarrow> string \<Rightarrow> bool option \<Rightarrow> store \<Rightarrow> command_outcome" where
  "execute_create cfg w i raw useWebhookOpt st =
     (if findOne (interaction_channel i) st \<noteq> None then \<lparr>replied = Inr AlreadySticky, stored = st\<rparr>
      else
        (let msg = unescape_newlines raw;
             use_hook = (case useWebhookOpt of
                           Some b \<Rightarrow> b
                         | None \<Rightarrow> (case Webhooks cfg of None \<Rightarrow> False | Some wc \<Rightarrow> EnabledByDefault wc))
         in if use_hook \<and> \<not> can_manage_webhooks i then \<lparr>replied = Inr NeedManageWebhooks, stored = st\<rparr>
            else
              (case first_post cfg w msg use_hook of
                 Inl e \<Rightarrow> \<lparr>replied = Inl e, stored = st\<rparr>
               | Inr (sentMessage, use_hook', hook, hname, havatar) \<Rightarrow>
                   \<lparr>replied = Inr StickySet,
                    stored = st @
                      [\<lparr>rid = fresh_rid st,
                        channelId = interaction_channel i,
                        message = msg,
                        msgCount = 0,
                        messageId = sent_id sentMessage,
                        useWebhook = use_hook',
                        webhookId = map_option hook_id hook,
                        webhookToken = Option.bind hook hook_token,
                        webhookName = hname,
                        webhookAvatarURL = havatar\<rparr>]\<rparr>)))"

text \<open>
  The \<^verbatim>\<open>delete\<close> branch. The document is removed first; the clean-up of the channel
  follows, with an uncaught rejection only from the fetch of the history.
\<close>

definition execute_delete :: "command_world \<Rightarrow> interaction \<Rightarrow> store \<Rightarrow> command_outcome" where
  "execute_delete w i st =
     (case findOne (interaction_channel i) st of
        None \<Rightarrow> \<lparr>replied = Inr NoStickyHere, stored = st\<rparr>
      | Some stickyMessage \<Rightarrow>
          (let st' = findOneAndDelete (interaction_channel i) st in
           if truthy (messageId stickyMessage) then \<lparr>replied = Inr StickyDeleted, stored = st'\<rparr>
           else (case cmd_fetch_history w of
                   Inl e \<Rightarrow> \<lparr>replied = Inl e, stored = st'\<rparr>
                 | Inr _ \<Rightarrow> \<lparr>replied = Inr StickyDeleted, stored = st'\<rparr>)))"

text \<open>
  \<^verbatim>\<open>embed.addFields(...)\<close> of the embed builder, which validates what it is given: it
  throws when the embed would hold more than 25 fields, and when a field's name is not of
  1 to 256 characters or its value not of 1 to 1024. A call that throws adds nothing.
\<close>

definition valid_field :: "string \<times> string \<Rightarrow> bool" where
  "valid_field f =
     (1 \<le> length (fst f) \<and> length (fst f) \<le> 256 \<and> 1 \<le> length (snd f) \<and> length (snd f) \<le> 1024)"

definition addFields ::
  "(string \<times> string) list \<Rightarrow> (string \<times> string) list \<Rightarrow> string + (string \<times> string) list" where
  "addFields shown new =
     (if 25 < length shown + length new then Inl ''embed: more than 25 fields''
      else if \<not> list_all valid_field new then Inl ''embed: invalid field''
      else Inr (shown @ new))"

text \<open>
  The loop of the \<^verbatim>\<open>list\<close> branch, lines 590 to 602, over the snapshot
  \<^verbatim>\<open>allStickyMessages\<close>: the fields added so far and the store. The call of
  \<^verbatim>\<open>addFields\<close> at line 594 is in no \<^verbatim>\<open>try\<close>: when it throws the loop ends there,
  with the store as the deletions made so far have left it.
\<close>

fun list_loop ::
  "command_world \<Rightarrow> sticky list \<Rightarrow> (string \<times> string) list \<times> store
     \<Rightarrow> (string + (string \<times> string) list) \<times> store" where
  "list_loop w [] (shown, st) = (Inr shown, st)"
| "list_loop w (stickyMessage # rest) (shown, st) =
     (case channel_name w (channelId stickyMessage) of
        Some name \<Rightarrow>
          (case addFields shown
                  [(''Channel'', name), (''Message'', message stickyMessage),
                   (''Webhook'', if useWebhook stickyMessage then ''Yes'' else ''No'')] of
             Inl e \<Rightarrow> (Inl e, st)
           | Inr shown' \<Rightarrow> list_loop w rest (shown', st))
      | None \<Rightarrow> list_loop w rest (shown, findOneAndDelete (channelId stickyMessage) st))"

text \<open>
  The \<^verbatim>\<open>list\<close> branch. A loop that threw leaves the command without a reply, with the
  reason of the throw.
\<close>

definition execute_list :: "command_world \<Rightarrow> store \<Rightarrow> command_outcome" where
  "execute_list w st =
     (if length st = 0 then \<lparr>replied = Inr NoActiveStickies, stored = st\<rparr>
      else (case list_loop w st ([], st) of
              (Inl e, st') \<Rightarrow> \<lparr>replied = Inl e, stored = st'\<rparr>
            | (Inr shown, st') \<Rightarrow> \<lparr>replied = Inr (Listing shown), stored = st'\<rparr>))"

definition execute ::
  "config \<Rightarrow> command_world \<Rightarrow> interaction \<Rightarrow> store \<Rightarrow> command_outcome" where
  "execute cfg w i st =
     (if \<not> can_manage_messages i then \<lparr>replied = Inr NoPermission, stored = st\<rparr>
      else if Enabled cfg = No then \<lparr>replied = Inr DisabledInConfig, stored = st\<rparr>
      else (case sub i of
              Create raw useWebhookOpt \<Rightarrow> execute_create cfg w i raw useWebhookOpt st
            | Delete \<Rightarrow> execute_delete w i st
            | List \<Rightarrow> execute_list w st))"

section \<open>The version checker\<close>

subsection \<open>JavaScript values and errors\<close>

text \<open>
  A parsed JSON body, or \<^verbatim>\<open>undefined\<close>. Numbers are kept as integers: the code
  only tests them for truthiness.
\<close>

datatype js =
    JUndefined
  | JNull
  | JBool bool
  | JNum int
  | JStr string
  | JArr "js list"
  | JObj "(string \<times> js) list"


text \<open>
  The values the code throws, by origin. Their \<^verbatim>\<open>message\<close> strings are:
  \<open>HttpError s t\<close> is \<^verbatim>\<open>HTTP s: t\<close>, \<open>FailedAfter n e\<close> is
  \<^verbatim>\<open>Failed after n attempts: \<close> followed by the message of \<open>e\<close>, \<open>NotInRegistry a\<close> is
  \<^verbatim>\<open>Addon 'a' not found in registry\<close>; \<open>NetworkError\<close> and \<open>ParseError\<close> carry the
  message of the rejection of \<^verbatim>\<open>fetch\<close> and of \<^verbatim>\<open>response.json()\<close>;
  \<open>AbortError\<close> is the rejection of \<^verbatim>\<open>fetch\<close> when its signal is aborted;
  \<open>TypeError\<close> is raised by the runtime.
\<close>

datatype err =
    TypeError
  | AbortError
  | NetworkError string
  | HttpError nat string
  | ParseError string
  | FailedAfter int err
  | NotInRegistry string


subsection \<open>Construction\<close>

record user_options =
  given_apiUrl :: "string option"
  given_repositoryUrl :: "string option"
  given_checkOnStartup :: "bool option"
  given_timeout :: "int option"
  given_retries :: "int option"
  given_useLegacyApi :: "bool option"
  given_trackAnalytics :: "bool option"

record options =
  apiUrl :: string
  repositoryUrl :: string
  checkOnStartup :: bool
  timeout :: int
  retries :: int
  useLegacyApi :: bool
  trackAnalytics :: bool

text \<open>
  \<^verbatim>\<open>{ key: <default expression>, ...options }\<close>: the spread comes last, so a key that
  the caller gave keeps the caller's value, whatever the default expression computed.
\<close>

definition spread :: "'a option \<Rightarrow> 'a \<Rightarrow> 'a" where
  "spread given computed = (case given of None \<Rightarrow> computed | Some v \<Rightarrow> v)"

definition str_or :: "string option \<Rightarrow> string \<Rightarrow> string" where
  "str_or given d = (case given of None \<Rightarrow> d | Some v \<Rightarrow> (if v = [] then d else v))"

definition num_or :: "int option \<Rightarrow> int \<Rightarrow> int" where
  "num_or given d = (case given of None \<Rightarrow> d | Some v \<Rightarrow> (if v = 0 then d else v))"

definition make_options :: "user_options \<Rightarrow> options" where
  "make_options u =
     \<lparr>apiUrl = spread (given_apiUrl u) (str_or (given_apiUrl u) ''https://addons.plexdev.live''),
      repositoryUrl = spread (given_repositoryUrl u)
        (str_or (given_repositoryUrl u) ''https://addons.plexdev.live/versions.json''),
      checkOnStartup = spread (given_checkOnStartup u) (given_checkOnStartup u \<noteq> Some False),
      timeout = spread (given_timeout u) (num_or (given_timeout u) 10000),
      retries = spread (given_retries u) (num_or (given_retries u) 2),
      useLegacyApi = spread (given_useLegacyApi u) (given_useLegacyApi u = Some True),
      trackAnalytics = spread (given_trackAnalytics u) (given_trackAnalytics u \<noteq> Some False)\<rparr>"

text \<open>The instance. \<^verbatim>\<open>addonSlug\<close> is left out: no modelled method reads it.\<close>

record checker =
  addonName :: string
  currentVersion :: string
  opts :: options

definition new_checker :: "string \<Rightarrow> string \<Rightarrow> user_options \<Rightarrow> checker" where
  "new_checker name version u = \<lparr>addonName = name, currentVersion = version, opts = make_options u\<rparr>"

subsection \<open>\<^verbatim>\<open>parseVersion\<close> and \<^verbatim>\<open>compareVersions\<close>\<close>

text \<open>
  A version string is the sequence of its UTF-16 code units, of which the model has
  those below 256; a string with a code unit beyond is outside the model.
\<close>

definition is_digit :: "char \<Rightarrow> bool" where
  "is_digit c = (48 \<le> (of_char c :: nat) \<and> (of_char c :: nat) \<le> 57)"

definition digit_value :: "char \<Rightarrow> int" where
  "digit_value c = (of_char c :: int) - 48"

text \<open>
  The white space and line terminators \<^verbatim>\<open>parseInt\<close> skips, among the code units below
  256: tab, line feed, vertical tab, form feed, carriage return, space, no-break space.
\<close>

definition is_space :: "char \<Rightarrow> bool" where
  "is_space c = (c \<in> set [CHR 0x09, CHR 0x0A, CHR 0x0B, CHR 0x0C, CHR 0x0D, CHR 0x20, CHR 0xA0])"

text \<open>
  The Numbers \<^verbatim>\<open>parseInt\<close> can return, but for \<^verbatim>\<open>NaN\<close>: an integer that a double
  holds exactly, or an infinity. \<^verbatim>\<open>-0\<close> is \<open>Finite 0\<close>: the code tells the two apart
  nowhere.
\<close>

datatype number = Finite int | PosInfinity | NegInfinity

text \<open>\<^verbatim>\<open>a < b\<close> on these Numbers.\<close>

fun number_less :: "number \<Rightarrow> number \<Rightarrow> bool" where
  "number_less (Finite a) (Finite b) = (a < b)"
| "number_less (Finite a) PosInfinity = True"
| "number_less (Finite a) NegInfinity = False"
| "number_less PosInfinity b = False"
| "number_less NegInfinity NegInfinity = False"
| "number_less NegInfinity b = True"

text \<open>The number of binary digits of an integer that is not negative.\<close>

function bit_length :: "int \<Rightarrow> nat" where
  "bit_length n = (if n \<le> 0 then 0 else Suc (bit_length (n div 2)))"
  by pat_completeness auto
termination
  by (relation "measure nat") auto

declare bit_length.simps [simp del]

text \<open>
  The double nearest to an integer that is not negative, ties to the even significand of
  53 binary digits; \<open>None\<close> when it is beyond the largest double and becomes
  \<^verbatim>\<open>Infinity\<close>.
\<close>

definition to_double :: "int \<Rightarrow> int option" where
  "to_double n =
     (if bit_length n \<le> 53 then Some n
      else
        (let e = bit_length n - 53;
             q = n div 2 ^ e;
             r = n mod 2 ^ e;
             half = 2 ^ (e - 1);
             q' = (if half < r \<or> (r = half \<and> odd q) then q + 1 else q);
             v = q' * 2 ^ e
         in if 1024 < bit_length v then None else Some v))"

text \<open>
  \<^verbatim>\<open>parseInt(s, 10)\<close>: leading white space, an optional sign, then the longest run of
  decimal digits, read as a Number; \<open>None\<close> is \<^verbatim>\<open>NaN\<close>. The digits are rounded as
  a whole (the language allows an implementation to drop those after the twentieth).
\<close>

definition parseInt10 :: "string \<Rightarrow> number option" where
  "parseInt10 s =
     (let s1 = dropWhile is_space s;
          negative = (case s1 of c # _ \<Rightarrow> c = CHR ''-'' | [] \<Rightarrow> False);
          s2 = (case s1 of c # r \<Rightarrow> (if c = CHR ''-'' \<or> c = CHR ''+'' then r else s1) | [] \<Rightarrow> []);
          digits = takeWhile is_digit s2;
          magnitude = foldl (\<lambda>a c. 10 * a + digit_value c) 0 digits
      in if digits = [] then None
         else Some (case to_double magnitude of
                      None \<Rightarrow> (if negative then NegInfinity else PosInfinity)
                    | Some m \<Rightarrow> Finite (if negative then - m else m)))"

text \<open>\<^verbatim>\<open>parseInt(num, 10) || 0\<close>\<close>

definition part_value :: "string \<Rightarrow> number" where
  "part_value num = (case parseInt10 num of None \<Rightarrow> Finite 0 | Some n \<Rightarrow> n)"

text \<open>\<^verbatim>\<open>s.split('.')\<close>, with the component being read kept in reverse.\<close>

fun split_dots :: "string \<Rightarrow> string \<Rightarrow> string list" where
  "split_dots cur [] = [rev cur]"
| "split_dots cur (c # s) =
     (if c = CHR ''.'' then rev cur # split_dots [] s else split_dots (c # cur) s)"

text \<open>\<^verbatim>\<open>version.replace(/^v/i, '')\<close>\<close>

fun strip_v :: "string \<Rightarrow> string" where
  "strip_v [] = []"
| "strip_v (c # s) = (if c = CHR ''v'' \<or> c = CHR ''V'' then s else c # s)"

definition parseVersion :: "string \<Rightarrow> number list" where
  "parseVersion version = map part_value (split_dots [] (strip_v version))"

text \<open>\<^verbatim>\<open>parts[i] || 0\<close>, where an index out of range reads \<^verbatim>\<open>undefined\<close>.\<close>

definition part_at :: "number list \<Rightarrow> nat \<Rightarrow> number" where
  "part_at parts i = (if i < length parts then parts ! i else Finite 0)"

function compare_from :: "number list \<Rightarrow> number list \<Rightarrow> nat \<Rightarrow> nat \<Rightarrow> int" where
  "compare_from currentParts latestParts maxLength i =
     (if i < maxLength then
        (let currentPart = part_at currentParts i; latestPart = part_at latestParts i
         in if number_less currentPart latestPart then - 1
            else if number_less latestPart currentPart then 1
            else compare_from currentParts latestParts maxLength (i + 1))
      else 0)"
  by pat_completeness auto
termination
  by (relation "measure (\<lambda>(c, l, n, i). n - i)") auto

declare compare_from.simps [simp del]

text \<open>
  \<^verbatim>\<open>compareVersions(current, latest)\<close>, with \<open>current\<close> a string as the constructor
  documents it and \<open>latest\<close> whatever the registry sent: \<^verbatim>\<open>version.replace\<close> is a
  \<^verbatim>\<open>TypeError\<close> on anything but a string.
\<close>

definition compareVersions :: "string \<Rightarrow> js \<Rightarrow> err + int" where
  "compareVersions current latest =
     (case latest of
        JStr l \<Rightarrow>
          (let currentParts = parseVersion current; latestParts = parseVersion l
           in Inr (compare_from currentParts latestParts (max (length currentParts) (length latestParts)) 0))
      | _ \<Rightarrow> Inl TypeError)"

text \<open>
  The comparison in the specification's words: component by component, a missing
  component counting as 0; \<open>- 1\<close>, \<open>0\<close> or \<open>1\<close> as the first list is below, equal to or
  above the second.
\<close>

fun componentwise :: "number list \<Rightarrow> number list \<Rightarrow> int" where
  "componentwise [] [] = 0"
| "componentwise (c # cs) [] =
     (if number_less c (Finite 0) then - 1 else if number_less (Finite 0) c then 1
      else componentwise cs [])"
| "componentwise [] (l # ls) =
     (if number_less (Finite 0) l then - 1 else if number_less l (Finite 0) then 1
      else componentwise [] ls)"
| "componentwise (c # cs) (l # ls) =
     (if number_less c l then - 1 else if number_less l c then 1 else componentwise cs ls)"

subsection \<open>\<^verbatim>\<open>fetchWithRetry\<close>\<close>

text \<open>
  What the network does with one request, left to itself: nothing at all, a rejection of
  \<^verbatim>\<open>fetch\<close> after so many milliseconds, or a response after so many milliseconds, with
  its \<^verbatim>\<open>ok\<close>, status and status text and with what \<^verbatim>\<open>response.json()\<close> then does:
  resolve to a value, reject, or never settle because the body never ends. The network
  answers the requests of a run in the order they are made: \<open>net k url\<close> is what it does
  with request number \<open>k\<close>, sent to \<open>url\<close>.
\<close>

datatype body = BodyJson js | BodyRejects string | BodyStalls

datatype answer = Silent | RejectsAt nat string | RespondsAt nat bool nat string body

type_synonym network = "nat \<Rightarrow> string \<Rightarrow> answer"

text \<open>
  The delay a timer really has: \<^verbatim>\<open>setTimeout\<close> takes a delay below 1 or above
  \<open>2 ^ 31 - 1\<close> for 1.
\<close>

definition timer_delay :: "int \<Rightarrow> int" where
  "timer_delay ms = (if ms < 1 \<or> 2147483647 < ms then 1 else ms)"

text \<open>
  How one attempt, lines 109 to 129, ends. The timer of line 110 aborts the request when
  it fires before \<^verbatim>\<open>fetch\<close> has settled, and \<^verbatim>\<open>fetch\<close> then rejects. When the response
  arrives first, line 123 clears the timer, and nothing bounds the read of the body at
  line 129: with a body that never ends the attempt stays pending. An answer at the very
  millisecond of the timer counts as too late.
\<close>

datatype attempt =
    Aborted
  | FetchRejected string
  | NotOk nat string
  | JsonRejected string
  | Json js
  | Pending

fun under_timer :: "int \<Rightarrow> answer \<Rightarrow> attempt" where
  "under_timer ms Silent = Aborted"
| "under_timer ms (RejectsAt t reason) =
     (if timer_delay ms \<le> int t then Aborted else FetchRejected reason)"
| "under_timer ms (RespondsAt t ok status statusText b) =
     (if timer_delay ms \<le> int t then Aborted
      else if \<not> ok then NotOk status statusText
      else (case b of
              BodyJson v \<Rightarrow> Json v
            | BodyRejects reason \<Rightarrow> JsonRejected reason
            | BodyStalls \<Rightarrow> Pending))"

text \<open>The error the \<^verbatim>\<open>catch\<close> of line 130 receives, when the attempt throws.\<close>

fun attempt_error :: "attempt \<Rightarrow> err option" where
  "attempt_error Aborted = Some AbortError"
| "attempt_error (FetchRejected m) = Some (NetworkError m)"
| "attempt_error (NotOk status statusText) = Some (HttpError status statusText)"
| "attempt_error (JsonRejected m) = Some (ParseError m)"
| "attempt_error (Json v) = None"
| "attempt_error Pending = None"

text \<open>
  What a run does that can be seen from outside: a request with its extra headers, the
  abort of the request in flight by the timer, after so many milliseconds, and a wait of
  so many milliseconds.
\<close>

datatype net_event = Request string "(string \<times> string) list" | Abort int | Sleep int

definition attempt_events :: "string \<Rightarrow> (string \<times> string) list \<Rightarrow> int \<Rightarrow> attempt \<Rightarrow> net_event list" where
  "attempt_events url extraHeaders ms outcome =
     Request url extraHeaders # (if outcome = Aborted then [Abort (timer_delay ms)] else [])"

text \<open>
  The loop of lines 107 to 138 from \<open>attempt\<close> on, \<open>k\<close> requests having been made before.
  Returns what the call returns (\<open>Inr\<close>) or throws (\<open>Inl\<close>), or \<open>None\<close> when it never
  settles, with its events and the number of requests made so far. Falling out of the
  loop returns \<^verbatim>\<open>undefined\<close>.
\<close>

function fetch_from ::
  "options \<Rightarrow> network \<Rightarrow> string \<Rightarrow> (string \<times> string) list \<Rightarrow> int \<Rightarrow> nat
     \<Rightarrow> (err + js) option \<times> net_event list \<times> nat" where
  "fetch_from os net url extraHeaders attempt k =
     (if attempt \<le> retries os then
        (let outcome = under_timer (timeout os) (net k url);
             events = attempt_events url extraHeaders (timeout os) outcome
         in case attempt_error outcome of
              None \<Rightarrow> ((case outcome of Json v \<Rightarrow> Some (Inr v) | _ \<Rightarrow> None), events, k + 1)
            | Some error \<Rightarrow>
                (if attempt = retries os then
                   (Some (Inl (FailedAfter (retries os) error)), events, k + 1)
                 else
                   (case fetch_from os net url extraHeaders (attempt + 1) (k + 1) of
                      (r, later, k') \<Rightarrow>
                        (r, events @ Sleep (timer_delay (1000 * attempt)) # later, k'))))
      else (Some (Inr JUndefined), [], k))"
  by pat_completeness auto
termination
  by (relation "measure (\<lambda>(os, net, url, hs, attempt, k). nat (retries os + 1 - attempt))") auto

declare fetch_from.simps [simp del]

definition fetchWithRetry ::
  "checker \<Rightarrow> network \<Rightarrow> string \<Rightarrow> (string \<times> string) list \<Rightarrow> nat
     \<Rightarrow> (err + js) option \<times> net_event list \<times> nat" where
  "fetchWithRetry chk net url extraHeaders k = fetch_from (opts chk) net url extraHeaders 1 k"

subsection \<open>\<^verbatim>\<open>fetchFromApi\<close>, \<^verbatim>\<open>fetchFromLegacy\<close> and \<^verbatim>\<open>checkForUpdates\<close>\<close>




text \<open>
  The members of the result the callers branch on. The success object carries further
  members copied from the registry's answer, which are left out.
\<close>

record check_result =
  success :: bool
  isOutdated :: bool
  isNewer :: bool
  isCurrent :: bool
  current :: "string option"
  latest :: "string option"
  error :: "err option"





section \<open>The system: handler, sweep and command on one store\<close>

text \<open>
  The three entry points share the collection. One operation is one run of one of them,
  with the answers the outside world gives during that run; the runs are taken one after
  the other.
\<close>

datatype 'p operation =
    Message world message_event
  | Sweep "'p webhook_api"
  | Command command_world interaction

record 'p system =
  sys_records :: store
  sys_cooldowns :: "string \<rightharpoonup> int"
  sys_platform :: 'p

fun step :: "config \<Rightarrow> 'p operation \<Rightarrow> 'p system \<Rightarrow> 'p system" where
  "step cfg (Message w m) s =
     (let out = messageCreate cfg w m \<lparr>records = sys_records s, cooldowns = sys_cooldowns s\<rparr>
      in s\<lparr>sys_records := records (after out), sys_cooldowns := cooldowns (after out)\<rparr>)"
| "step cfg (Sweep api) s =
     (let out = ensureWebhooks api cfg (sys_records s) (sys_platform s)
      in s\<lparr>sys_records := sw_records out, sys_platform := sw_platform out\<rparr>)"
| "step cfg (Command w i) s = s\<lparr>sys_records := stored (execute cfg w i (sys_records s))\<rparr>"

text \<open>
  A run of the handler tracks the document \<open>r\<close> when its event is not ignored and
  \<open>r\<close> is the document found for the event's channel; it posts a new artifact for \<open>r\<close>
  when, in addition, the gate is open, the threshold test of line 65 passes, the
  removal of the previous artifact does not throw and dispatch returns a message.
\<close>

definition tracks :: "message_event \<Rightarrow> store \<Rightarrow> sticky \<Rightarrow> bool" where
  "tracks m st r = (\<not> ignored m \<and> findOne (channel_id m) st = Some r)"

definition posts :: "config \<Rightarrow> world \<Rightarrow> message_event \<Rightarrow> handler_state \<Rightarrow> sticky \<Rightarrow> string option" where
  "posts cfg w m s r =
     (if tracks m (records s) r \<and> gate_open (cooldowns s) (channel_id m) (now_check w)
         \<and> MaxMessages cfg \<le> int (msgCount r) \<and> \<not> isl (delete_previous cfg w r)
      then (case snd (dispatch cfg w r) of Inl _ \<Rightarrow> None | Inr a \<Rightarrow> Some a)
      else None)"

fun op_tracks :: "'p operation \<Rightarrow> 'p system \<Rightarrow> sticky \<Rightarrow> bool" where
  "op_tracks (Message w m) s r = tracks m (sys_records s) r"
| "op_tracks _ s r = False"

fun op_posts :: "config \<Rightarrow> 'p operation \<Rightarrow> 'p system \<Rightarrow> sticky \<Rightarrow> bool" where
  "op_posts cfg (Message w m) s r =
     (posts cfg w m \<lparr>records = sys_records s, cooldowns = sys_cooldowns s\<rparr> r \<noteq> None)"
| "op_posts cfg _ s r = False"

text \<open>A sequence of handler runs, with the platform calls of all of them.\<close>

fun run :: "config \<Rightarrow> (world \<times> message_event) list \<Rightarrow> handler_state \<Rightarrow> handler_state \<times> call list" where
  "run cfg [] s = (s, [])"
| "run cfg ((w, m) # es) s =
     (let out = messageCreate cfg w m s in
      case run cfg es (after out) of (s', cs) \<Rightarrow> (s', calls out @ cs))"

section \<open>Notions of the specification\<close>

text \<open>
  A record's webhook identity is healthy on a platform state when its stored id and
  token are present and the lookup of the channel's webhooks succeeds and lists the id.
\<close>

definition healthy :: "'p webhook_api \<Rightarrow> 'p \<Rightarrow> sticky \<Rightarrow> bool" where
  "healthy api p rec =
     (truthy (webhookId rec) \<and> truthy (webhookToken rec)
      \<and> (case fetchWebhooks api p (channelId rec) of
            Inl _ \<Rightarrow> False
          | Inr hooks \<Rightarrow> the (webhookId rec) \<in> set hooks))"

text \<open>
  What a sweep is to keep for a record \<open>r\<close>: its health, the document as it is stored,
  and no creation call made for it.
\<close>

definition kept :: "'p webhook_api \<Rightarrow> sticky \<Rightarrow> 'p sweep_state \<Rightarrow> bool" where
  "kept api r s =
     (healthy api (sw_platform s) r \<and> findById (rid r) (sw_records s) = Some r
      \<and> rid r \<notin> fst ` set (sw_calls s))"

text \<open>The three fields by which a listing renders one record of a channel named \<open>name\<close>.\<close>

definition listing_row :: "string \<Rightarrow> sticky \<Rightarrow> (string \<times> string) list" where
  "listing_row name r =
     [(''Channel'', name), (''Message'', message r),
      (''Webhook'', if useWebhook r then ''Yes'' else ''No'')]"

definition in_cache :: "command_world \<Rightarrow> sticky \<Rightarrow> bool" where
  "in_cache w r = (channel_name w (channelId r) \<noteq> None)"


text \<open>How the request number \<open>j\<close> of a run, sent to \<open>url\<close>, ends under the timer.\<close>

definition outcome_of :: "options \<Rightarrow> network \<Rightarrow> string \<Rightarrow> nat \<Rightarrow> attempt" where
  "outcome_of os net url j = under_timer (timeout os) (net j url)"



section \<open>Sample inputs\<close>

definition cfg5 :: config where
  "cfg5 = \<lparr>Enabled = Yes, MaxMessages = 5, EnableEmbeds = No, StickiedMessageTitle = ''Pinned'',
           Webhooks = None\<rparr>"

definition rules :: sticky where
  "rules = \<lparr>rid = 1, channelId = ''general'', message = ''read the rules'', msgCount = 0,
            messageId = Some ''m0'', useWebhook = False, webhookId = None, webhookToken = None,
            webhookName = None, webhookAvatarURL = None\<rparr>"

definition hooked :: sticky where
  "hooked = rules\<lparr>useWebhook := True, webhookId := Some ''hook1'', webhookToken := Some ''secret''\<rparr>"

text \<open>A world in which every platform call succeeds, at time \<open>t\<close>.\<close>

definition calm :: "int \<Rightarrow> world" where
  "calm t = \<lparr>now_check = t, now_set = t, fetch_message = (\<lambda>_. True), delete_message = (\<lambda>_. True),
             fetch_history = Inr [], hook_send = (\<lambda>_ _ _. Inr (Single ''w1'')),
             channel_send = (\<lambda>_. Inr ''m1'')\<rparr>"

definition from_alice :: message_event where
  "from_alice = \<lparr>author_id = ''alice'', client_user_id = ''bot'', in_guild = True,
                 channel_id = ''general''\<rparr>"

definition fresh_state :: "sticky \<Rightarrow> handler_state" where
  "fresh_state r = \<lparr>records = [r], cooldowns = Map.empty\<rparr>"

text \<open>
  A platform whose state is the list of the webhook ids of channel \<open>general\<close>, the only
  cached channel: the lookup returns the list, a creation adds the id \<open>hook2\<close>.
\<close>

definition one_channel_api :: "string list webhook_api" where
  "one_channel_api =
     \<lparr>cached = (\<lambda>c. c = ''general''),
      fetchWebhooks = (\<lambda>p c. Inr p),
      createWebhook = (\<lambda>p c n a. (Inr \<lparr>hook_id = ''hook2'', hook_token = Some ''secret2''\<rparr>, ''hook2'' # p))\<rparr>"

definition orphan :: sticky where
  "orphan = rules\<lparr>rid := 3, useWebhook := True\<rparr>"

definition archived :: sticky where
  "archived = rules\<lparr>rid := 2, channelId := ''archive'', message := ''closed''\<rparr>"

text \<open>
  Nine records in nine cached channels, followed by one whose channel is gone, and a
  cache that holds every channel but \<open>archive\<close>.
\<close>

definition crowded :: store where
  "crowded =
     map (\<lambda>(n, c). rules\<lparr>rid := n, channelId := c\<rparr>)
       [(1, ''c1''), (2, ''c2''), (3, ''c3''), (4, ''c4''), (5, ''c5''),
        (6, ''c6''), (7, ''c7''), (8, ''c8''), (9, ''c9'')]
     @ [rules\<lparr>rid := 10, channelId := ''archive''\<rparr>]"

definition all_but_archive :: command_world where
  "all_but_archive =
     \<lparr>channel_name = (\<lambda>c. if c = ''archive'' then None else Some c),
      cmd_create_webhook = (\<lambda>_ _. Inl ''unused''),
      cmd_hook_send = (\<lambda>_ _. Inl ''unused''),
      cmd_channel_send = (\<lambda>_. Inl ''unused''),
      cmd_fetch_history = Inl ''unused''\<rparr>"

text \<open>A moderator's \<^verbatim>\<open>/sticky list\<close>, with only channel \<open>general\<close> in the cache.\<close>

definition list_request :: interaction where
  "list_request = \<lparr>can_manage_messages = True, can_manage_webhooks = False,
                   interaction_channel = ''general'', sub = List\<rparr>"

definition general_only :: command_world where
  "general_only =
     \<lparr>channel_name = (\<lambda>c. if c = ''general'' then Some ''general-chat'' else None),
      cmd_create_webhook = (\<lambda>_ _. Inl ''unused''),
      cmd_hook_send = (\<lambda>_ _. Inl ''unused''),
      cmd_channel_send = (\<lambda>_. Inl ''unused''),
      cmd_fetch_history = Inl ''unused''\<rparr>"

text \<open>A checker built with no options, and registries that answer every request alike.\<close>

definition no_options :: user_options where
  "no_options = \<lparr>given_apiUrl = None, given_repositoryUrl = None, given_checkOnStartup = None,
                 given_timeout = None, given_retries = None, given_useLegacyApi = None,
                 given_trackAnalytics = None\<rparr>"

definition sticky_checker :: checker where
  "sticky_checker = new_checker ''StickyMessages'' ''1.2'' no_options"







text \<open>A registry that never answers.\<close>

definition mute :: network where
  "mute = (\<lambda>k url. Silent)"

text \<open>A registry that sends its headers after 5 ms and never finishes the body.\<close>

definition stalling :: network where
  "stalling = (\<lambda>k url. RespondsAt 5 True 200 ''OK'' BodyStalls)"

section \<open>Unfolding the samples and the handler\<close>

lemmas sample_defs =
  cfg5_def rules_def hooked_def calm_def from_alice_def fresh_state_def

lemmas handler_defs =
  messageCreate_def ignored_def findOne_def gate_open_def reconcile_def increment_def repost_def
  delete_previous_def dispatch_def direct_post_def render_def text_payload_def Let_def

section \<open>Facts about the store\<close>

lemma findOne_mem: "findOne c st = Some sm \<Longrightarrow> sm \<in> set st \<and> channelId sm = c"
  unfolding findOne_def by (induction st) (auto split: if_splits)

lemma findById_mem: "findById i st = Some r \<Longrightarrow> r \<in> set st \<and> rid r = i"
  unfolding findById_def by (induction st) (auto split: if_splits)

lemma findById_self: "distinct (map rid st) \<Longrightarrow> sm \<in> set st \<Longrightarrow> findById (rid sm) st = Some sm"
  unfolding findById_def by (induction st) (auto split: if_splits)

lemma findById_update:
  "(\<And>r. rid (f r) = rid r) \<Longrightarrow>
   findById j (findByIdAndUpdate i f st) = (if j = i then map_option f (findById i st) else findById j st)"
  unfolding findById_def by (induction st) auto

lemma map_rid_update:
  "(\<And>r. rid (f r) = rid r) \<Longrightarrow> map rid (findByIdAndUpdate i f st) = map rid st"
  by (induction st) auto

lemma findOne_update:
  "distinct (map rid st) \<Longrightarrow> findOne c st = Some sm \<Longrightarrow> channelId (f sm) = c \<Longrightarrow>
   findOne c (findByIdAndUpdate (rid sm) f st) = Some (f sm)"
proof (induction st)
  case Nil
  then show ?case by (simp add: findOne_def)
next
  case (Cons r st)
  show ?case
  proof (cases "channelId r = c")
    case True
    with Cons.prems have "sm = r" by (simp add: findOne_def)
    with True Cons.prems show ?thesis by (simp add: findOne_def)
  next
    case False
    with Cons.prems have found: "findOne c st = Some sm" by (simp add: findOne_def)
    then have "sm \<in> set st" using findOne_mem by blast
    with Cons.prems(1) have "rid r \<noteq> rid sm" by auto
    with False Cons.IH[OF _ found Cons.prems(3)] Cons.prems(1) show ?thesis
      by (simp add: findOne_def)
  qed
qed

lemma rid_increment [simp]: "rid (increment r) = rid r"
  by (simp add: increment_def)

section \<open>The handler, branch by branch\<close>

lemma messageCreate_ignored:
  "ignored m \<Longrightarrow> messageCreate cfg w m s = \<lparr>result = Inr (), after = s, calls = []\<rparr>"
  by (simp add: messageCreate_def)

lemma messageCreate_no_record:
  "findOne (channel_id m) (records s) = None \<Longrightarrow>
   messageCreate cfg w m s = \<lparr>result = Inr (), after = s, calls = []\<rparr>"
  by (simp add: messageCreate_def)

lemma messageCreate_closed:
  "\<not> ignored m \<Longrightarrow> findOne (channel_id m) (records s) = Some sm \<Longrightarrow>
   \<not> gate_open (cooldowns s) (channel_id m) (now_check w) \<Longrightarrow>
   messageCreate cfg w m s =
     \<lparr>result = Inr (), after = s\<lparr>records := findByIdAndUpdate (rid sm) increment (records s)\<rparr>,
      calls = []\<rparr>"
  by (simp add: messageCreate_def)

lemma messageCreate_open:
  "\<not> ignored m \<Longrightarrow> findOne (channel_id m) (records s) = Some sm \<Longrightarrow>
   gate_open (cooldowns s) (channel_id m) (now_check w) \<Longrightarrow>
   messageCreate cfg w m s =
     reconcile cfg w sm
       (s\<lparr>records := findByIdAndUpdate (rid sm) increment (records s),
          cooldowns := (cooldowns s)(channel_id m \<mapsto> now_set w + 1000)\<rparr>)"
  by (simp add: messageCreate_def)

lemma gate_closed_iff:
  "\<not> gate_open cd c now \<longleftrightarrow> (\<exists>t. cd c = Some t \<and> now < t)"
  by (auto simp: gate_open_def split: option.splits)

lemma dispatch_cases:
  "snd (dispatch cfg w sm) = Inl e \<Longrightarrow> channel_send w (render cfg (message sm)) = Inl e"
  by (auto simp: dispatch_def direct_post_def Let_def split: if_splits sum.splits)

lemma repost_result:
  "result (repost cfg w sm s) =
     (case delete_previous cfg w sm of
        Inl e \<Rightarrow> Inl (HistoryFetchFailed e)
      | Inr dels \<Rightarrow> (case snd (dispatch cfg w sm) of Inl e \<Rightarrow> Inl (DispatchFailed e) | Inr a \<Rightarrow> Inr ()))"
  by (auto simp: repost_def split: sum.splits prod.splits)

lemma repost_after:
  "after (repost cfg w sm s) =
     (case delete_previous cfg w sm of
        Inl e \<Rightarrow> s
      | Inr dels \<Rightarrow>
          (case snd (dispatch cfg w sm) of
             Inl e \<Rightarrow> s
           | Inr a \<Rightarrow> s\<lparr>records := findByIdAndUpdate (rid sm)
                          (\<lambda>r. r\<lparr>msgCount := 0, messageId := Some a\<rparr>) (records s)\<rparr>))"
  by (auto simp: repost_def split: sum.splits prod.splits)

lemma repost_calls:
  "calls (repost cfg w sm s) =
     (case delete_previous cfg w sm of
        Inl e \<Rightarrow> [FetchHistory]
      | Inr dels \<Rightarrow> dels @ fst (dispatch cfg w sm))"
  by (auto simp: repost_def split: sum.splits prod.splits)

section \<open>Debounce, dispatch and the webhook's own messages\<close>

text \<open>
  Claim C5. For a tracked message on a channel with a record, the count is incremented
  by one in the store before the debounce test. If the current time is before the
  channel's recorded next-eligible time, the run ends there, with the increment stored
  and no platform call. Otherwise the next-eligible time becomes now plus 1000 ms and
  the reconciler runs on the incremented store.
\<close>

theorem debounce_then_reconcile:
  assumes "distinct (map rid (records s))"
    and "\<not> ignored m"
    and "findOne (channel_id m) (records s) = Some sm"
  shows "findOne (channel_id m) (findByIdAndUpdate (rid sm) increment (records s))
           = Some (sm\<lparr>msgCount := msgCount sm + 1\<rparr>)
         \<and> messageCreate cfg w m s =
           (if \<exists>t. cooldowns s (channel_id m) = Some t \<and> now_check w < t
            then \<lparr>result = Inr (),
                  after = s\<lparr>records := findByIdAndUpdate (rid sm) increment (records s)\<rparr>,
                  calls = []\<rparr>
            else reconcile cfg w sm
                   (s\<lparr>records := findByIdAndUpdate (rid sm) increment (records s),
                      cooldowns := (cooldowns s)(channel_id m \<mapsto> now_set w + 1000)\<rparr>))"
proof -
  have "channelId (increment sm) = channel_id m"
    using findOne_mem[OF assms(3)] by (simp add: increment_def)
  from findOne_update[where f = increment, OF assms(1) assms(3) this]
  have stored: "findOne (channel_id m) (findByIdAndUpdate (rid sm) increment (records s))
                  = Some (sm\<lparr>msgCount := msgCount sm + 1\<rparr>)"
    by (simp add: increment_def)
  show ?thesis
  proof (cases "gate_open (cooldowns s) (channel_id m) (now_check w)")
    case True
    then have "\<not> (\<exists>t. cooldowns s (channel_id m) = Some t \<and> now_check w < t)"
      using gate_closed_iff by blast
    with stored messageCreate_open[OF assms(2,3) True] show ?thesis by (simp only: if_False simp_thms)
  next
    case False
    then have "\<exists>t. cooldowns s (channel_id m) = Some t \<and> now_check w < t"
      using gate_closed_iff by blast
    with stored messageCreate_closed[OF assms(2,3) False] show ?thesis by (simp only: if_True simp_thms)
  qed
qed

theorem debounce_then_reconcile_witness:
  "distinct (map rid (records \<lparr>records = [rules], cooldowns = [''general'' \<mapsto> 500]\<rparr>))
   \<and> \<not> ignored from_alice
   \<and> findOne (channel_id from_alice) (records \<lparr>records = [rules], cooldowns = [''general'' \<mapsto> 500]\<rparr>)
       = Some rules
   \<and> messageCreate cfg5 (calm 100) from_alice \<lparr>records = [rules], cooldowns = [''general'' \<mapsto> 500]\<rparr>
       = \<lparr>result = Inr (),
          after = \<lparr>records = [rules\<lparr>msgCount := 1\<rparr>], cooldowns = [''general'' \<mapsto> 500]\<rparr>,
          calls = []\<rparr>"
proof -
  let ?s = "\<lparr>records = [rules], cooldowns = [''general'' \<mapsto> 500]\<rparr>"
  have h1: "distinct (map rid (records ?s))" by simp
  have h2: "\<not> ignored from_alice" by (simp add: ignored_def from_alice_def)
  have h3: "findOne (channel_id from_alice) (records ?s) = Some rules"
    by (simp add: findOne_def from_alice_def rules_def)
  show ?thesis
    using h1 h2 h3 debounce_then_reconcile[OF h1 h2 h3, of cfg5 "calm 100"]
    by (simp add: from_alice_def calm_def increment_def rules_def)
qed

lemma reconcile_after_records:
  "records (after (reconcile cfg w sm s)) =
     (if MaxMessages cfg \<le> int (msgCount sm) \<and> \<not> isl (delete_previous cfg w sm) then
        (case snd (dispatch cfg w sm) of
           Inl e \<Rightarrow> records s
         | Inr a \<Rightarrow> findByIdAndUpdate (rid sm) (\<lambda>r. r\<lparr>msgCount := 0, messageId := Some a\<rparr>) (records s))
      else records s)"
  by (auto simp: reconcile_def repost_after split: sum.splits)

lemma messageCreate_records:
  assumes "\<not> ignored m" and "findOne (channel_id m) (records s) = Some sm"
  shows "records (after (messageCreate cfg w m s)) =
     (case posts cfg w m s sm of
        None \<Rightarrow> findByIdAndUpdate (rid sm) increment (records s)
      | Some a \<Rightarrow>
          findByIdAndUpdate (rid sm) (\<lambda>r. r\<lparr>msgCount := 0, messageId := Some a\<rparr>)
            (findByIdAndUpdate (rid sm) increment (records s)))"
proof (cases "gate_open (cooldowns s) (channel_id m) (now_check w)")
  case True
  show ?thesis
    using assms True
    by (simp add: messageCreate_open[OF assms True] reconcile_after_records posts_def tracks_def
             split: sum.splits)
next
  case False
  show ?thesis
    using assms False
    by (simp add: messageCreate_closed[OF assms False] posts_def)
qed

lemma messageCreate_untracked:
  "ignored m \<or> findOne (channel_id m) (records s) = None \<Longrightarrow>
   after (messageCreate cfg w m s) = s"
  by (auto simp: messageCreate_def)

lemma handler_effect:
  assumes "distinct (map rid (records s))"
    and "\<not> ignored m"
    and "findOne (channel_id m) (records s) = Some sm"
  shows "findOne (channel_id m) (records (after (messageCreate cfg w m s))) =
           Some (case posts cfg w m s sm of
                   None \<Rightarrow> sm\<lparr>msgCount := msgCount sm + 1\<rparr>
                 | Some a \<Rightarrow> sm\<lparr>msgCount := 0, messageId := Some a\<rparr>)"
proof -
  let ?st1 = "findByIdAndUpdate (rid sm) increment (records s)"
  have c: "channelId sm = channel_id m"
    using findOne_mem[OF assms(3)] by simp
  have one: "findOne (channel_id m) ?st1 = Some (increment sm)"
    using findOne_update[where f = increment, OF assms(1) assms(3)] c by (simp add: increment_def)
  have d1: "distinct (map rid ?st1)"
    using assms(1) by (simp add: map_rid_update)
  show ?thesis
  proof (cases "posts cfg w m s sm")
    case None
    with one show ?thesis
      by (simp add: messageCreate_records[OF assms(2,3)] increment_def)
  next
    case (Some a)
    let ?reset = "\<lambda>r. r\<lparr>msgCount := 0, messageId := Some a\<rparr>"
    have "findOne (channel_id m) (findByIdAndUpdate (rid (increment sm)) ?reset ?st1)
            = Some (?reset (increment sm))"
      using findOne_update[where f = ?reset, OF d1 one] c by (simp add: increment_def)
    with Some show ?thesis
      by (simp add: messageCreate_records[OF assms(2,3)] increment_def)
  qed
qed

lemma handler_effect_by_id:
  assumes "\<not> ignored m"
    and "findOne (channel_id m) (records s) = Some sm"
  shows "findById j (records (after (messageCreate cfg w m s))) =
           (if j = rid sm then
              map_option (\<lambda>r. case posts cfg w m s sm of
                                 None \<Rightarrow> r\<lparr>msgCount := msgCount r + 1\<rparr>
                               | Some a \<Rightarrow> r\<lparr>msgCount := 0, messageId := Some a\<rparr>)
                (findById j (records s))
            else findById j (records s))"
  by (cases "posts cfg w m s sm")
     (simp_all add: messageCreate_records[OF assms] findById_update increment_def[abs_def]
        option.map_comp comp_def)

lemma dispatch_webhook_first:
  assumes "useWebhook sm" and "truthy (webhookId sm)" and "truthy (webhookToken sm)"
  shows "dispatch cfg w sm =
     (case hook_send w (the (webhookId sm)) (the (webhookToken sm)) (render cfg (message sm)) of
        Inr res \<Rightarrow>
          ([WebhookSend (the (webhookId sm)) (the (webhookToken sm)) (render cfg (message sm))],
           Inr (first_sent res))
      | Inl e \<Rightarrow>
          ([WebhookSend (the (webhookId sm)) (the (webhookToken sm)) (render cfg (message sm)),
            ChannelSend (render cfg (message sm))],
           channel_send w (render cfg (message sm))))"
  using assms by (simp add: dispatch_def direct_post_def Let_def split: sum.splits)

lemma messageCreate_due:
  assumes "\<not> ignored m" and "findOne (channel_id m) (records s) = Some sm"
    and "gate_open (cooldowns s) (channel_id m) (now_check w)"
    and "MaxMessages cfg \<le> int (msgCount sm)"
  shows "messageCreate cfg w m s =
     repost cfg w sm
       (s\<lparr>records := findByIdAndUpdate (rid sm) increment (records s),
          cooldowns := (cooldowns s)(channel_id m \<mapsto> now_set w + 1000)\<rparr>)"
  using assms(4) by (simp add: messageCreate_open[OF assms(1,2,3)] reconcile_def)

text \<open>
  Claim C2. For a record with \<open>useWebhook\<close> set and a stored webhook id and token, a
  repost tries the webhook first. If the webhook send fails, the direct post follows; if
  that succeeds, its message id is stored as the record's \<open>messageId\<close> with the count
  reset, and the handler returns normally. The handler fails with \<open>DispatchFailed\<close>
  only if the webhook send and the direct post both failed.
\<close>

theorem webhook_first_then_direct:
  assumes "distinct (map rid (records s))"
    and "\<not> ignored m"
    and "findOne (channel_id m) (records s) = Some sm"
    and "gate_open (cooldowns s) (channel_id m) (now_check w)"
    and "MaxMessages cfg \<le> int (msgCount sm)"
    and "delete_previous cfg w sm = Inr dels"
    and "useWebhook sm" and "truthy (webhookId sm)" and "truthy (webhookToken sm)"
  shows "(\<exists>rest. calls (messageCreate cfg w m s) =
            dels @ WebhookSend (the (webhookId sm)) (the (webhookToken sm)) (render cfg (message sm)) # rest)
       \<and> (\<forall>e a. hook_send w (the (webhookId sm)) (the (webhookToken sm)) (render cfg (message sm)) = Inl e
                \<and> channel_send w (render cfg (message sm)) = Inr a \<longrightarrow>
              result (messageCreate cfg w m s) = Inr ()
              \<and> calls (messageCreate cfg w m s) =
                  dels @ [WebhookSend (the (webhookId sm)) (the (webhookToken sm)) (render cfg (message sm)),
                          ChannelSend (render cfg (message sm))]
              \<and> findOne (channel_id m) (records (after (messageCreate cfg w m s))) =
                  Some (sm\<lparr>msgCount := 0, messageId := Some a\<rparr>))
       \<and> (\<forall>e. result (messageCreate cfg w m s) = Inl (DispatchFailed e) \<longrightarrow>
              isl (hook_send w (the (webhookId sm)) (the (webhookToken sm)) (render cfg (message sm)))
              \<and> channel_send w (render cfg (message sm)) = Inl e)"
proof -
  let ?p = "render cfg (message sm)"
  let ?hook = "hook_send w (the (webhookId sm)) (the (webhookToken sm)) ?p"
  note d = dispatch_webhook_first[OF assms(7,8,9), of cfg w]
  note mc = messageCreate_due[OF assms(2,3,4,5)]
  have first: "\<exists>rest. calls (messageCreate cfg w m s) =
      dels @ WebhookSend (the (webhookId sm)) (the (webhookToken sm)) ?p # rest"
    by (cases ?hook) (simp_all add: mc repost_calls assms(6) d)
  have fallback: "result (messageCreate cfg w m s) = Inr ()
      \<and> calls (messageCreate cfg w m s) =
          dels @ [WebhookSend (the (webhookId sm)) (the (webhookToken sm)) ?p, ChannelSend ?p]
      \<and> findOne (channel_id m) (records (after (messageCreate cfg w m s))) =
          Some (sm\<lparr>msgCount := 0, messageId := Some a\<rparr>)"
    if "?hook = Inl e" and "channel_send w ?p = Inr a" for e a
  proof -
    have "posts cfg w m s sm = Some a"
      using that assms(2-6) by (simp add: posts_def tracks_def d)
    with handler_effect[OF assms(1,2,3), of cfg w] that show ?thesis
      by (simp add: mc repost_calls repost_result assms(6) d)
  qed
  have failed: "isl ?hook \<and> channel_send w ?p = Inl e"
    if "result (messageCreate cfg w m s) = Inl (DispatchFailed e)" for e
    using that by (cases ?hook) (auto simp: mc repost_result assms(6) d split: sum.splits)
  from first fallback failed show ?thesis by blast
qed

theorem webhook_first_then_direct_witness:
  "(let w = (calm 0)\<lparr>hook_send := (\<lambda>_ _ _. Inl ''Unknown Webhook'')\<rparr>;
        s = fresh_state (hooked\<lparr>msgCount := 5\<rparr>);
        out = messageCreate cfg5 w from_alice s
    in hook_send w ''hook1'' ''secret'' (render cfg5 ''read the rules'') = Inl ''Unknown Webhook''
       \<and> channel_send w (render cfg5 ''read the rules'') = Inr ''m1''
       \<and> result out = Inr ()
       \<and> calls out = [FetchMessage ''m0'', DeleteMessage ''m0'',
                       WebhookSend ''hook1'' ''secret'' (render cfg5 ''read the rules''),
                       ChannelSend (render cfg5 ''read the rules'')]
       \<and> findOne ''general'' (records (after out)) = Some (hooked\<lparr>msgCount := 0, messageId := Some ''m1''\<rparr>))
   \<and> (let w = (calm 0)\<lparr>hook_send := (\<lambda>_ _ _. Inl ''Unknown Webhook''),
                         channel_send := (\<lambda>_. Inl ''Missing Permissions'')\<rparr>;
            s = fresh_state (hooked\<lparr>msgCount := 5\<rparr>);
            out = messageCreate cfg5 w from_alice s
        in result out = Inl (DispatchFailed ''Missing Permissions'')
           \<and> isl (hook_send w ''hook1'' ''secret'' (render cfg5 ''read the rules''))
           \<and> channel_send w (render cfg5 ''read the rules'') = Inl ''Missing Permissions'')"
proof -
  let ?w1 = "(calm 0)\<lparr>hook_send := (\<lambda>_ _ _. Inl ''Unknown Webhook'')\<rparr>"
  let ?w2 = "(calm 0)\<lparr>hook_send := (\<lambda>_ _ _. Inl ''Unknown Webhook''),
                       channel_send := (\<lambda>_. Inl ''Missing Permissions'')\<rparr>"
  let ?sm = "hooked\<lparr>msgCount := 5\<rparr>"
  let ?s = "fresh_state ?sm"
  let ?dels = "[FetchMessage ''m0'', DeleteMessage ''m0'']"
  have h1: "distinct (map rid (records ?s))" by (simp add: fresh_state_def)
  have h2: "\<not> ignored from_alice" by (simp add: ignored_def from_alice_def)
  have h3: "findOne (channel_id from_alice) (records ?s) = Some ?sm"
    by (simp add: findOne_def sample_defs)
  have h4: "gate_open (cooldowns ?s) (channel_id from_alice) (now_check w)" for w
    by (simp add: gate_open_def fresh_state_def)
  have h5: "MaxMessages cfg5 \<le> int (msgCount ?sm)" by (simp add: cfg5_def)
  have h6: "delete_previous cfg5 ?w1 ?sm = Inr ?dels" "delete_previous cfg5 ?w2 ?sm = Inr ?dels"
    by (simp_all add: delete_previous_def sample_defs Let_def)
  have h7: "useWebhook ?sm" "truthy (webhookId ?sm)" "truthy (webhookToken ?sm)"
    by (simp_all add: sample_defs)
  have r2: "result (messageCreate cfg5 ?w2 from_alice ?s) = Inl (DispatchFailed ''Missing Permissions'')"
    by (simp add: sample_defs handler_defs)
  show ?thesis
    using webhook_first_then_direct[OF h1 h2 h3 h4 h5 h6(1) h7]
      webhook_first_then_direct[OF h1 h2 h3 h4 h5 h6(2) h7] r2
    by (simp add: Let_def sample_defs)
qed

lemma messageCreate_rids:
  "map rid (records (after (messageCreate cfg w m s))) = map rid (records s)"
proof (cases "ignored m \<or> findOne (channel_id m) (records s) = None")
  case True
  then show ?thesis by (simp add: messageCreate_untracked)
next
  case False
  then obtain sm where "\<not> ignored m" and "findOne (channel_id m) (records s) = Some sm"
    by auto
  then show ?thesis
    by (cases "posts cfg w m s sm") (simp_all add: messageCreate_records map_rid_update)
qed

text \<open>
  Claim C7. The handler ignores a message only when its author is the bot user (or it
  has no guild). A sticky delivered through the channel's webhook is authored by the
  webhook id, so its own \<^verbatim>\<open>messageCreate\<close> event is tracked: after a repost through the
  webhook has reset the count to 0, the event of the posted artifact raises it to 1.
\<close>

theorem webhook_repost_counts_itself:
  assumes "distinct (map rid (records s))"
    and "\<not> ignored m"
    and "findOne (channel_id m) (records s) = Some sm"
    and "gate_open (cooldowns s) (channel_id m) (now_check w)"
    and "MaxMessages cfg \<le> int (msgCount sm)"
    and "\<not> isl (delete_previous cfg w sm)"
    and "useWebhook sm" and "webhookId sm = Some h" and "h \<noteq> []" and "truthy (webhookToken sm)"
    and "hook_send w h (the (webhookToken sm)) (render cfg (message sm)) = Inr res"
    and "author_id e = h" and "client_user_id e \<noteq> h" and "in_guild e"
    and "channel_id e = channel_id m"
    and "0 < MaxMessages cfg"
  shows "\<not> ignored e
       \<and> findOne (channel_id m) (records (after (messageCreate cfg w m s))) =
           Some (sm\<lparr>msgCount := 0, messageId := Some (first_sent res)\<rparr>)
       \<and> findOne (channel_id m)
           (records (after (messageCreate cfg w' e (after (messageCreate cfg w m s))))) =
           Some (sm\<lparr>msgCount := 1, messageId := Some (first_sent res)\<rparr>)"
proof -
  let ?s1 = "after (messageCreate cfg w m s)"
  let ?sm1 = "sm\<lparr>msgCount := 0, messageId := Some (first_sent res)\<rparr>"
  have tracked: "\<not> ignored e"
    using assms(12,13,14) by (auto simp: ignored_def)
  have "dispatch cfg w sm =
      ([WebhookSend h (the (webhookToken sm)) (render cfg (message sm))], Inr (first_sent res))"
    using dispatch_webhook_first[of sm cfg w] assms(7-11) by simp
  then have "posts cfg w m s sm = Some (first_sent res)"
    using assms(2-6) by (simp add: posts_def tracks_def)
  with handler_effect[OF assms(1,2,3), of cfg w]
  have one: "findOne (channel_id m) (records ?s1) = Some ?sm1" by simp
  then have one': "findOne (channel_id e) (records ?s1) = Some ?sm1"
    using assms(15) by simp
  have d1: "distinct (map rid (records ?s1))"
    using assms(1) by (simp add: messageCreate_rids)
  have "posts cfg w' e ?s1 ?sm1 = None"
    using assms(16) by (simp add: posts_def)
  with handler_effect[OF d1 tracked one', of cfg w'] assms(15)
  have "findOne (channel_id m) (records (after (messageCreate cfg w' e ?s1))) =
      Some (sm\<lparr>msgCount := 1, messageId := Some (first_sent res)\<rparr>)"
    by simp
  with tracked one show ?thesis by simp
qed

theorem webhook_repost_counts_itself_witness:
  "(let s = fresh_state (hooked\<lparr>msgCount := 5\<rparr>);
        e = \<lparr>author_id = ''hook1'', client_user_id = ''bot'', in_guild = True, channel_id = ''general''\<rparr>
    in hook_send (calm 0) ''hook1'' ''secret'' (render cfg5 ''read the rules'') = Inr (Single ''w1'')
       \<and> \<not> ignored e
       \<and> findOne ''general'' (records (after (messageCreate cfg5 (calm 0) from_alice s)))
           = Some (hooked\<lparr>msgCount := 0, messageId := Some ''w1''\<rparr>)
       \<and> findOne ''general''
            (records (after (messageCreate cfg5 (calm 50) e (after (messageCreate cfg5 (calm 0) from_alice s)))))
           = Some (hooked\<lparr>msgCount := 1, messageId := Some ''w1''\<rparr>))"
proof -
  let ?sm = "hooked\<lparr>msgCount := 5\<rparr>"
  let ?s = "fresh_state ?sm"
  let ?e = "\<lparr>author_id = ''hook1'', client_user_id = ''bot'', in_guild = True, channel_id = ''general''\<rparr>"
  have h1: "distinct (map rid (records ?s))" by (simp add: fresh_state_def)
  have h2: "\<not> ignored from_alice" by (simp add: ignored_def from_alice_def)
  have h3: "findOne (channel_id from_alice) (records ?s) = Some ?sm"
    by (simp add: findOne_def sample_defs)
  have h4: "gate_open (cooldowns ?s) (channel_id from_alice) (now_check (calm 0))"
    by (simp add: gate_open_def fresh_state_def)
  have h5: "MaxMessages cfg5 \<le> int (msgCount ?sm)" by (simp add: cfg5_def)
  have h6: "\<not> isl (delete_previous cfg5 (calm 0) ?sm)"
    by (simp add: delete_previous_def sample_defs Let_def)
  have h7: "useWebhook ?sm" "webhookId ?sm = Some ''hook1''" "''hook1'' \<noteq> []" "truthy (webhookToken ?sm)"
    by (simp_all add: sample_defs)
  have h8: "hook_send (calm 0) ''hook1'' (the (webhookToken ?sm)) (render cfg5 (message ?sm)) = Inr (Single ''w1'')"
    by (simp add: sample_defs)
  have h9: "author_id ?e = ''hook1''" "client_user_id ?e \<noteq> ''hook1''" "in_guild ?e"
    "channel_id ?e = channel_id from_alice" "0 < MaxMessages cfg5"
    by (simp_all add: sample_defs)
  show ?thesis
    using webhook_repost_counts_itself[OF h1 h2 h3 h4 h5 h6 h7 h8 h9, of "calm 50"]
    by (simp add: Let_def sample_defs)
qed

section \<open>What a failure leaves behind\<close>

text \<open>
  With the gate open, the handler calls the platform exactly when the count it read
  before the increment has reached the threshold.
\<close>

lemma dispatch_calls_nonempty: "fst (dispatch cfg w sm) \<noteq> []"
  by (simp add: dispatch_def direct_post_def Let_def split: sum.splits)

lemma repost_iff_stale_count:
  assumes "\<not> ignored m" and "findOne (channel_id m) (records s) = Some sm"
    and "gate_open (cooldowns s) (channel_id m) (now_check w)"
  shows "calls (messageCreate cfg w m s) \<noteq> [] \<longleftrightarrow> MaxMessages cfg \<le> int (msgCount sm)"
  using dispatch_calls_nonempty[of cfg w sm]
  by (simp add: messageCreate_open[OF assms] reconcile_def repost_calls split: sum.splits)

text \<open>
  Without a stored \<open>messageId\<close>, a rejected fetch of the history ends the run before
  any send.
\<close>

lemma history_fetch_failure_propagates:
  assumes "\<not> ignored m" and "findOne (channel_id m) (records s) = Some sm"
    and "gate_open (cooldowns s) (channel_id m) (now_check w)"
    and "MaxMessages cfg \<le> int (msgCount sm)"
    and "\<not> truthy (messageId sm)" and "fetch_history w = Inl e"
  shows "messageCreate cfg w m s =
     \<lparr>result = Inl (HistoryFetchFailed e),
      after = s\<lparr>records := findByIdAndUpdate (rid sm) increment (records s),
                cooldowns := (cooldowns s)(channel_id m \<mapsto> now_set w + 1000)\<rparr>,
      calls = [FetchHistory]\<rparr>"
  using assms(5,6)
  by (simp add: messageCreate_due[OF assms(1-4)] repost_def delete_previous_def)

text \<open>After a failed dispatch the store holds the increment and nothing else.\<close>

lemma dispatch_failure_keeps_record:
  assumes "\<not> ignored m" and "findOne (channel_id m) (records s) = Some sm"
    and "result (messageCreate cfg w m s) = Inl (DispatchFailed e)"
  shows "records (after (messageCreate cfg w m s)) = findByIdAndUpdate (rid sm) increment (records s)"
proof -
  have "posts cfg w m s sm = None"
  proof (cases "gate_open (cooldowns s) (channel_id m) (now_check w)")
    case True
    with assms(3) show ?thesis
      by (auto simp: messageCreate_open[OF assms(1,2) True] reconcile_def repost_result posts_def
               split: if_splits sum.splits)
  next
    case False
    then show ?thesis by (simp add: posts_def)
  qed
  then show ?thesis by (simp add: messageCreate_records[OF assms(1,2)])
qed

lemma deletion_by_id_never_throws:
  "truthy (messageId sm) \<Longrightarrow> \<not> isl (delete_previous cfg w sm)"
  by (simp add: delete_previous_def Let_def)

lemma delete_outcome_ignored:
  "messageCreate cfg (w\<lparr>delete_message := d\<rparr>) m s = messageCreate cfg w m s"
proof -
  have sel: "fetch_message (w\<lparr>delete_message := d\<rparr>) = fetch_message w"
    "fetch_history (w\<lparr>delete_message := d\<rparr>) = fetch_history w"
    "hook_send (w\<lparr>delete_message := d\<rparr>) = hook_send w"
    "channel_send (w\<lparr>delete_message := d\<rparr>) = channel_send w"
    "now_check (w\<lparr>delete_message := d\<rparr>) = now_check w"
    "now_set (w\<lparr>delete_message := d\<rparr>) = now_set w"
    by simp_all
  show ?thesis
    unfolding messageCreate_def reconcile_def repost_def delete_previous_def dispatch_def
      direct_post_def sel
    by (rule refl)
qed

section \<open>The handler on concrete inputs\<close>

lemma quiet_step:
  "n < 5 \<Longrightarrow> gate_open cd ''general'' t \<Longrightarrow>
   messageCreate cfg5 (calm t) from_alice \<lparr>records = [rules\<lparr>msgCount := n\<rparr>], cooldowns = cd\<rparr>
     = \<lparr>result = Inr (),
        after = \<lparr>records = [rules\<lparr>msgCount := Suc n\<rparr>], cooldowns = cd(''general'' \<mapsto> t + 1000)\<rparr>,
        calls = []\<rparr>"
  by (simp add: sample_defs messageCreate_def ignored_def findOne_def reconcile_def increment_def)

lemma loud_step:
  "gate_open cd ''general'' t \<Longrightarrow>
   messageCreate cfg5 (calm t) from_alice
     \<lparr>records = [rules\<lparr>msgCount := Suc (Suc (Suc (Suc (Suc 0))))\<rparr>], cooldowns = cd\<rparr>
     = \<lparr>result = Inr (),
        after = \<lparr>records = [rules\<lparr>msgCount := 0, messageId := Some ''m1''\<rparr>],
                 cooldowns = cd(''general'' \<mapsto> t + 1000)\<rparr>,
        calls = [FetchMessage ''m0'', DeleteMessage ''m0'',
                 ChannelSend (Content (''Pinned'' @ [CHR 0x0A, CHR 0x0A] @ ''read the rules''))]\<rparr>"
  by (simp add: sample_defs messageCreate_def ignored_def findOne_def reconcile_def increment_def
        repost_def delete_previous_def dispatch_def direct_post_def render_def text_payload_def Let_def)

lemma fresh_rules: "fresh_state rules = \<lparr>records = [rules\<lparr>msgCount := 0\<rparr>], cooldowns = Map.empty\<rparr>"
  by (simp add: fresh_state_def rules_def)

text \<open>
  Claim C1, on the code. With \<open>MaxMessages = 5\<close> and a record starting at count 0, five
  tracked messages two seconds apart make no platform call and leave the count at 5:
  line 65 compares the count read at line 57, before the increment of line 60. The
  sixth message makes the repost: one delete of the previous artifact, one send, count 0.
\<close>

theorem fifth_message_does_not_repost:
  "run cfg5 (map (\<lambda>t. (calm t, from_alice)) [0, 2000, 4000, 6000, 8000]) (fresh_state rules)
     = (\<lparr>records = [rules\<lparr>msgCount := 5\<rparr>], cooldowns = [''general'' \<mapsto> 9000]\<rparr>, [])
   \<and> run cfg5 (map (\<lambda>t. (calm t, from_alice)) [0, 2000, 4000, 6000, 8000, 10000]) (fresh_state rules)
     = (\<lparr>records = [rules\<lparr>msgCount := 0, messageId := Some ''m1''\<rparr>],
         cooldowns = [''general'' \<mapsto> 11000]\<rparr>,
        [FetchMessage ''m0'', DeleteMessage ''m0'',
         ChannelSend (Content (''Pinned'' @ [CHR 0x0A, CHR 0x0A] @ ''read the rules''))])"
  by (simp add: fresh_rules quiet_step loud_step gate_open_def Let_def eval_nat_numeral)

text \<open>
  Claim C3, on the code. For a record without a stored \<open>messageId\<close> that is due for a
  repost, a rejected fetch of the channel history leaves the handler with that error:
  no send is attempted, and the store holds only the increment.
\<close>

theorem history_fetch_failure_aborts_repost:
  "messageCreate cfg5 ((calm 0)\<lparr>fetch_history := Inl ''Missing Access''\<rparr>) from_alice
     (fresh_state (rules\<lparr>msgCount := 5, messageId := None\<rparr>))
   = \<lparr>result = Inl (HistoryFetchFailed ''Missing Access''),
      after = \<lparr>records = [rules\<lparr>msgCount := 6, messageId := None\<rparr>],
               cooldowns = [''general'' \<mapsto> 1000]\<rparr>,
      calls = [FetchHistory]\<rparr>"
  by (simp add: sample_defs handler_defs)

section \<open>The sweep\<close>

lemma needCreate_iff: "needCreate api p rec \<longleftrightarrow> \<not> healthy api p rec"
  by (cases "webhookId rec")
     (auto simp: needCreate_def healthy_def list_ex_iff split: sum.splits)

lemma ensure_record_healthy:
  "healthy api (sw_platform s) rec \<Longrightarrow> ensure_record api cfg rec s = s"
  by (simp add: ensure_record_def needCreate_iff)

lemma ensure_record_uncached:
  "\<not> cached api (channelId rec) \<Longrightarrow> ensure_record api cfg rec s = s"
  by (simp add: ensure_record_def)

lemma fold_ensure_noop:
  "\<forall>rec \<in> set recs. cached api (channelId rec) \<longrightarrow> healthy api (sw_platform s) rec \<Longrightarrow>
   fold (ensure_record api cfg) recs s = s"
proof (induction recs)
  case Nil
  then show ?case by simp
next
  case (Cons rec recs)
  then have "ensure_record api cfg rec s = s"
    by (cases "cached api (channelId rec)")
       (simp_all add: ensure_record_healthy ensure_record_uncached)
  with Cons show ?case by simp
qed

lemma ensure_record_kept:
  assumes "kept api r s"
    and "rid rec = rid r \<longrightarrow> rec = r"
    and "\<And>p c n a. healthy api p r \<Longrightarrow> healthy api (snd (createWebhook api p c n a)) r"
  shows "kept api r (ensure_record api cfg rec s)"
proof (cases "rec = r")
  case True
  with assms(1) show ?thesis by (simp add: kept_def ensure_record_healthy)
next
  case False
  with assms(2) have ne: "rid rec \<noteq> rid r" by blast
  show ?thesis
  proof (cases "cached api (channelId rec) \<and> needCreate api (sw_platform s) rec")
    case False
    with assms(1) show ?thesis by (auto simp: ensure_record_def)
  next
    case True
    let ?name = "sweep_hook_name cfg rec" and ?avatar = "sweep_hook_avatar cfg rec"
    obtain res p' where c: "createWebhook api (sw_platform s) (channelId rec) ?name ?avatar = (res, p')"
      by (cases "createWebhook api (sw_platform s) (channelId rec) ?name ?avatar")
    from assms(1) assms(3)[of "sw_platform s" "channelId rec" ?name ?avatar] c
    have h: "healthy api p' r" by (simp add: kept_def)
    from assms(1) ne True c h show ?thesis
      by (cases res) (auto simp: kept_def ensure_record_def Let_def findById_update)
  qed
qed

lemma fold_ensure_kept:
  assumes "\<forall>rec \<in> set recs. rid rec = rid r \<longrightarrow> rec = r"
    and "\<And>p c n a. healthy api p r \<Longrightarrow> healthy api (snd (createWebhook api p c n a)) r"
  shows "kept api r s \<Longrightarrow> kept api r (fold (ensure_record api cfg) recs s)"
  using assms(1)
proof (induction recs arbitrary: s)
  case Nil
  then show ?case by simp
next
  case (Cons rec recs)
  from Cons.prems have "rid rec = rid r \<longrightarrow> rec = r" by simp
  from ensure_record_kept[OF Cons.prems(1) this assms(2)]
  have "kept api r (ensure_record api cfg rec s)" .
  from Cons.IH[OF this] Cons.prems(2) show ?case by simp
qed

lemma same_rid_same_record:
  "distinct (map rid st) \<Longrightarrow> r \<in> set st \<Longrightarrow> rec \<in> set st \<Longrightarrow> rid rec = rid r \<Longrightarrow> rec = r"
  by (simp add: distinct_map inj_on_def)

text \<open>
  Claim C6. A record whose stored webhook id and token are present and whose id is in the
  list the lookup of its channel returns is left as it is by a sweep, and the sweep
  makes no creation call for it, as long as the creations the sweep makes for other
  records do not take its health away. Hence a sweep over a store whose webhook records
  with a cached channel are all healthy changes nothing and creates nothing, and so does
  a second sweep after it.
\<close>

theorem sweep_idempotent:
  "(distinct (map rid st) \<and> r \<in> set st \<and> healthy api p r
      \<and> (\<forall>p' c n a. healthy api p' r \<longrightarrow> healthy api (snd (createWebhook api p' c n a)) r) \<longrightarrow>
        findById (rid r) (sw_records (ensureWebhooks api cfg st p)) = Some r
        \<and> rid r \<notin> fst ` set (sw_calls (ensureWebhooks api cfg st p))
        \<and> healthy api (sw_platform (ensureWebhooks api cfg st p)) r)
   \<and> ((\<forall>r \<in> set st. useWebhook r \<and> cached api (channelId r) \<longrightarrow> healthy api p r) \<longrightarrow>
        ensureWebhooks api cfg st p = \<lparr>sw_records = st, sw_platform = p, sw_calls = []\<rparr>
        \<and> ensureWebhooks api cfg (sw_records (ensureWebhooks api cfg st p))
              (sw_platform (ensureWebhooks api cfg st p))
            = \<lparr>sw_records = st, sw_platform = p, sw_calls = []\<rparr>)"
proof -
  have one: "kept api r (ensureWebhooks api cfg st p)"
    if d: "distinct (map rid st)" and r: "r \<in> set st" and h: "healthy api p r"
      and stable: "\<forall>p' c n a. healthy api p' r \<longrightarrow> healthy api (snd (createWebhook api p' c n a)) r"
  proof -
    have start: "kept api r \<lparr>sw_records = st, sw_platform = p, sw_calls = []\<rparr>"
      using h findById_self[OF d r] by (simp add: kept_def)
    have same: "\<forall>rec \<in> set (filter useWebhook st). rid rec = rid r \<longrightarrow> rec = r"
      using same_rid_same_record[OF d r] by auto
    from stable have "\<And>p' c n a. healthy api p' r \<Longrightarrow> healthy api (snd (createWebhook api p' c n a)) r"
      by blast
    from fold_ensure_kept[OF same this start] show ?thesis
      by (simp add: ensureWebhooks_def)
  qed
  have all: "ensureWebhooks api cfg st p = \<lparr>sw_records = st, sw_platform = p, sw_calls = []\<rparr>"
    if "\<forall>r \<in> set st. useWebhook r \<and> cached api (channelId r) \<longrightarrow> healthy api p r"
    using that unfolding ensureWebhooks_def by (intro fold_ensure_noop) simp
  from one all show ?thesis
    by (simp add: kept_def)
qed

theorem sweep_idempotent_witness:
  "distinct (map rid [hooked, orphan]) \<and> hooked \<in> set [hooked, orphan]
   \<and> healthy one_channel_api [''hook1''] hooked
   \<and> ensureWebhooks one_channel_api cfg5 [hooked, orphan] [''hook1'']
       = \<lparr>sw_records = [hooked, orphan\<lparr>webhookId := Some ''hook2'', webhookToken := Some ''secret2'',
                                         webhookName := Some ''Sticky''\<rparr>],
          sw_platform = [''hook2'', ''hook1''],
          sw_calls = [(3, CreateWebhook ''general'' ''Sticky'' None)]\<rparr>
   \<and> findById (rid hooked) (sw_records (ensureWebhooks one_channel_api cfg5 [hooked, orphan] [''hook1'']))
       = Some hooked
   \<and> rid hooked \<notin> fst ` set (sw_calls (ensureWebhooks one_channel_api cfg5 [hooked, orphan] [''hook1'']))
   \<and> useWebhook hooked \<and> cached one_channel_api (channelId hooked)
   \<and> ensureWebhooks one_channel_api cfg5 [hooked] [''hook1'']
       = \<lparr>sw_records = [hooked], sw_platform = [''hook1''], sw_calls = []\<rparr>
   \<and> ensureWebhooks one_channel_api cfg5
         (sw_records (ensureWebhooks one_channel_api cfg5 [hooked] [''hook1'']))
         (sw_platform (ensureWebhooks one_channel_api cfg5 [hooked] [''hook1'']))
       = \<lparr>sw_records = [hooked], sw_platform = [''hook1''], sw_calls = []\<rparr>"
proof -
  have h: "healthy one_channel_api [''hook1''] hooked"
    by (simp add: healthy_def one_channel_api_def hooked_def rules_def)
  have c: "useWebhook hooked" "cached one_channel_api (channelId hooked)"
    "distinct (map rid [hooked, orphan])" "hooked \<in> set [hooked, orphan]"
    by (simp_all add: one_channel_api_def hooked_def orphan_def rules_def)
  have stable: "\<forall>p' c n a. healthy one_channel_api p' hooked \<longrightarrow>
      healthy one_channel_api (snd (createWebhook one_channel_api p' c n a)) hooked"
    by (simp add: healthy_def one_channel_api_def hooked_def rules_def)
  have sweep: "ensureWebhooks one_channel_api cfg5 [hooked, orphan] [''hook1'']
       = \<lparr>sw_records = [hooked, orphan\<lparr>webhookId := Some ''hook2'', webhookToken := Some ''secret2'',
                                         webhookName := Some ''Sticky''\<rparr>],
          sw_platform = [''hook2'', ''hook1''],
          sw_calls = [(3, CreateWebhook ''general'' ''Sticky'' None)]\<rparr>"
    by (simp add: ensureWebhooks_def ensure_record_def needCreate_def sweep_hook_name_def
          sweep_hook_avatar_def or_else_def config_hook_name_def config_hook_avatar_def
          one_channel_api_def hooked_def orphan_def rules_def cfg5_def Let_def)
  show ?thesis
    using h c stable sweep
      sweep_idempotent[of "[hooked, orphan]" hooked one_channel_api "[''hook1'']" cfg5]
      sweep_idempotent[of "[hooked]" hooked one_channel_api "[''hook1'']" cfg5]
    by simp
qed

section \<open>The listing\<close>

lemma addFields_Inr: "addFields shown new = Inr out \<Longrightarrow> out = shown @ new"
  by (simp add: addFields_def split: if_splits)

lemma list_loop_shown:
  "fst (list_loop w xs (shown, st)) = Inr out \<Longrightarrow>
   out = shown @ concat (map (\<lambda>r. listing_row (the (channel_name w (channelId r))) r) (filter (in_cache w) xs))"
proof (induction xs arbitrary: shown st)
  case Nil
  then show ?case by simp
next
  case (Cons x xs)
  show ?case
  proof (cases "channel_name w (channelId x)")
    case None
    with Cons show ?thesis by (simp add: in_cache_def)
  next
    case (Some name)
    with Cons.prems obtain shown' where a: "addFields shown (listing_row name x) = Inr shown'"
      and l: "fst (list_loop w xs (shown', st)) = Inr out"
      by (auto simp: listing_row_def split: sum.splits)
    from Cons.IH[OF l] addFields_Inr[OF a] Some show ?thesis
      by (simp add: in_cache_def)
  qed
qed

lemma delete_first_uncached:
  assumes "U c"
    and "map channelId (filter (\<lambda>r. U (channelId r)) st) = c # cs"
  shows "map channelId (filter (\<lambda>r. U (channelId r)) (findOneAndDelete c st)) = cs
       \<and> filter (\<lambda>r. \<not> U (channelId r)) (findOneAndDelete c st) = filter (\<lambda>r. \<not> U (channelId r)) st"
  using assms by (induction st) (auto split: if_splits)

lemma none_uncached:
  "filter (\<lambda>r. U (channelId r)) st = [] \<Longrightarrow> filter (\<lambda>r. \<not> U (channelId r)) st = st"
  by (induction st) (auto split: if_splits)

lemma list_loop_store:
  "map channelId (filter (\<lambda>r. \<not> in_cache w r) st) = map channelId (filter (\<lambda>r. \<not> in_cache w r) xs) \<Longrightarrow>
   fst (list_loop w xs (shown, st)) = Inr out \<Longrightarrow>
   snd (list_loop w xs (shown, st)) = filter (in_cache w) st"
proof (induction xs arbitrary: shown st)
  case Nil
  then have "filter (\<lambda>r. channel_name w (channelId r) = None) st = []"
    by (simp add: in_cache_def)
  from none_uncached[where U = "\<lambda>c. channel_name w c = None", OF this]
  show ?case by (simp add: in_cache_def[abs_def])
next
  case (Cons x xs)
  show ?case
  proof (cases "channel_name w (channelId x)")
    case (Some name)
    with Cons.prems(1) have m: "map channelId (filter (\<lambda>r. \<not> in_cache w r) st)
        = map channelId (filter (\<lambda>r. \<not> in_cache w r) xs)"
      by (simp add: in_cache_def)
    from Some Cons.prems(2) obtain shown' where a: "addFields shown (listing_row name x) = Inr shown'"
      and l: "fst (list_loop w xs (shown', st)) = Inr out"
      by (auto simp: listing_row_def split: sum.splits)
    from Cons.IH[OF m l] Some a show ?thesis by (simp add: listing_row_def)
  next
    case None
    with Cons.prems(1) have "map channelId (filter (\<lambda>r. channel_name w (channelId r) = None) st)
        = channelId x # map channelId (filter (\<lambda>r. channel_name w (channelId r) = None) xs)"
      by (simp add: in_cache_def)
    from delete_first_uncached[where U = "\<lambda>c. channel_name w c = None", OF None this]
    have a: "map channelId (filter (\<lambda>r. \<not> in_cache w r) (findOneAndDelete (channelId x) st))
              = map channelId (filter (\<lambda>r. \<not> in_cache w r) xs)"
      and b: "filter (in_cache w) (findOneAndDelete (channelId x) st) = filter (in_cache w) st"
      by (simp_all add: in_cache_def[abs_def])
    from None Cons.prems(2)
    have l: "fst (list_loop w xs (shown, findOneAndDelete (channelId x) st)) = Inr out" by simp
    from Cons.IH[OF a l] b None show ?thesis by simp
  qed
qed

text \<open>
  A listing that is sent has pruned the store of every record whose channel is not
  cached, and shows the others, unchanged.
\<close>

lemma listing_sent_prunes_uncached:
  assumes "can_manage_messages i" and "Enabled cfg \<noteq> No" and "sub i = List" and "st \<noteq> []"
    and "replied (execute cfg w i st) = Inr reply"
  shows "stored (execute cfg w i st) = filter (in_cache w) st
       \<and> reply = Listing (concat (map (\<lambda>r. listing_row (the (channel_name w (channelId r))) r)
                                       (filter (in_cache w) st)))"
proof -
  obtain res st' where l: "list_loop w st ([], st) = (res, st')"
    by (cases "list_loop w st ([], st)")
  with assms obtain shown where res: "res = Inr shown" and reply: "reply = Listing shown"
    by (cases res) (auto simp: execute_def execute_list_def)
  have "st' = filter (in_cache w) st"
    using list_loop_store[of w st st "[]" shown] l res by simp
  moreover have "shown = concat (map (\<lambda>r. listing_row (the (channel_name w (channelId r))) r)
                                      (filter (in_cache w) st))"
    using list_loop_shown[of w st "[]" st shown] l res by simp
  ultimately show ?thesis
    using assms l res reply by (simp add: execute_def execute_list_def)
qed

text \<open>The builder accepts the listing of up to eight cached records with fields of legal length.\<close>

lemma list_loop_fits:
  "length shown + 3 * length (filter (in_cache w) xs) \<le> 25 \<Longrightarrow>
   \<forall>r \<in> set xs. in_cache w r \<longrightarrow> list_all valid_field (listing_row (the (channel_name w (channelId r))) r) \<Longrightarrow>
   \<exists>out. fst (list_loop w xs (shown, st)) = Inr out"
proof (induction xs arbitrary: shown st)
  case Nil
  then show ?case by simp
next
  case (Cons x xs)
  from Cons.prems(2)
  have rest: "\<forall>r \<in> set xs. in_cache w r \<longrightarrow>
      list_all valid_field (listing_row (the (channel_name w (channelId r))) r)"
    by simp
  show ?case
  proof (cases "channel_name w (channelId x)")
    case None
    then have "\<not> in_cache w x" by (simp add: in_cache_def)
    with Cons.prems(1) have "length shown + 3 * length (filter (in_cache w) xs) \<le> 25"
      by simp
    from Cons.IH[OF this rest] None show ?thesis by simp
  next
    case (Some name)
    then have c: "in_cache w x" by (simp add: in_cache_def)
    with Cons.prems(2) Some have v: "list_all valid_field (listing_row name x)"
      by simp
    from c Cons.prems(1) have n: "length shown + 3 + 3 * length (filter (in_cache w) xs) \<le> 25"
      by simp
    then have a: "addFields shown (listing_row name x) = Inr (shown @ listing_row name x)"
      using v by (simp add: addFields_def listing_row_def)
    have "length (shown @ listing_row name x) + 3 * length (filter (in_cache w) xs) \<le> 25"
      using n by (simp add: listing_row_def)
    from Cons.IH[OF this rest] obtain out
      where "fst (list_loop w xs (shown @ listing_row name x, st)) = Inr out" by auto
    with Some a show ?thesis by (simp add: listing_row_def)
  qed
qed

text \<open>
  Claim C8, on the code. With nine records in cached channels before one whose channel
  is not cached, the ninth call of \<^verbatim>\<open>addFields\<close> would bring the embed to 27 fields and
  throws: the command ends without a reply and the record of the uncached channel is
  still in the store.
\<close>

theorem ninth_record_stops_the_listing:
  "execute cfg5 all_but_archive list_request crowded
     = \<lparr>replied = Inl ''embed: more than 25 fields'', stored = crowded\<rparr>
   \<and> \<not> in_cache all_but_archive (rules\<lparr>rid := 10, channelId := ''archive''\<rparr>)
   \<and> rules\<lparr>rid := 10, channelId := ''archive''\<rparr> \<in> set (stored (execute cfg5 all_but_archive list_request crowded))"
proof -
  have "list_loop all_but_archive crowded ([], crowded) = (Inl ''embed: more than 25 fields'', crowded)"
    by (simp add: crowded_def all_but_archive_def addFields_def valid_field_def rules_def)
  then have "execute cfg5 all_but_archive list_request crowded
     = \<lparr>replied = Inl ''embed: more than 25 fields'', stored = crowded\<rparr>"
    by (simp add: execute_def execute_list_def list_request_def cfg5_def crowded_def)
  then show ?thesis
    by (simp add: in_cache_def all_but_archive_def crowded_def)
qed

section \<open>The count of a record across the operations\<close>

lemma findById_sublist:
  assumes "distinct (map rid st)" and "set st' \<subseteq> set st" and "findById i st' = Some r'"
  shows "findById i st = Some r'"
proof -
  from findById_mem[OF assms(3)] have "r' \<in> set st'" and "rid r' = i" by simp_all
  with assms(2) have "r' \<in> set st" by blast
  from findById_self[OF assms(1) this] \<open>rid r' = i\<close> show ?thesis by simp
qed

lemma set_findOneAndDelete: "set (findOneAndDelete c st) \<subseteq> set st"
  by (induction st) auto

lemma rids_findOneAndDelete: "distinct (map rid st) \<Longrightarrow> distinct (map rid (findOneAndDelete c st))"
  using set_findOneAndDelete[of c] by (induction st) (auto simp: image_iff)

lemma fresh_rid_above: "r \<in> set st \<Longrightarrow> rid r < fresh_rid st"
  by (induction st) auto

lemma findById_append:
  "findById i (st @ [new]) = (case findById i st of None \<Rightarrow> findById i [new] | Some r \<Rightarrow> Some r)"
  unfolding findById_def by (induction st) auto

lemma list_loop_subset: "set (snd (list_loop w xs (shown, st))) \<subseteq> set st"
proof (induction xs arbitrary: shown st)
  case Nil
  then show ?case by simp
next
  case (Cons x xs)
  show ?case
  proof (cases "channel_name w (channelId x)")
    case None
    with Cons.IH[of shown "findOneAndDelete (channelId x) st"] set_findOneAndDelete[of "channelId x" st]
    show ?thesis by auto
  next
    case (Some name)
    with Cons.IH[of _ st] show ?thesis by (auto split: sum.splits)
  qed
qed

lemma list_loop_rids:
  "distinct (map rid st) \<Longrightarrow> distinct (map rid (snd (list_loop w xs (shown, st))))"
proof (induction xs arbitrary: shown st)
  case Nil
  then show ?case by simp
next
  case (Cons x xs)
  show ?case
  proof (cases "channel_name w (channelId x)")
    case None
    have "distinct (map rid (findOneAndDelete (channelId x) st))"
      using Cons.prems by (rule rids_findOneAndDelete)
    from Cons.IH[OF this] None show ?thesis by simp
  next
    case (Some name)
    with Cons.IH[OF Cons.prems] Cons.prems show ?thesis by (auto split: sum.splits)
  qed
qed

lemma execute_list_stored:
  "set (stored (execute_list w st)) \<subseteq> set st
   \<and> (distinct (map rid st) \<longrightarrow> distinct (map rid (stored (execute_list w st))))"
proof (cases "st = []")
  case True
  then show ?thesis by (simp add: execute_list_def)
next
  case False
  obtain res st' where l: "list_loop w st ([], st) = (res, st')"
    by (cases "list_loop w st ([], st)")
  with list_loop_subset[of w st "[]" st] list_loop_rids[of st w st "[]"]
  have "set st' \<subseteq> set st" and "distinct (map rid st) \<longrightarrow> distinct (map rid st')"
    by simp_all
  with False l show ?thesis by (cases res) (simp_all add: execute_list_def)
qed

lemma execute_create_stored:
  "stored (execute_create cfg w i raw opt st) = st
   \<or> (\<exists>new. stored (execute_create cfg w i raw opt st) = st @ [new]
            \<and> rid new = fresh_rid st \<and> msgCount new = 0)"
  by (auto simp: execute_create_def Let_def split: sum.splits prod.splits)

lemma execute_delete_stored:
  "stored (execute_delete w i st) = st
   \<or> stored (execute_delete w i st) = findOneAndDelete (interaction_channel i) st"
  by (auto simp: execute_delete_def Let_def split: option.splits sum.splits)

lemma execute_stored_cases:
  "(\<exists>new. stored (execute cfg w i st) = st @ [new] \<and> rid new = fresh_rid st \<and> msgCount new = 0)
   \<or> (set (stored (execute cfg w i st)) \<subseteq> set st
       \<and> (distinct (map rid st) \<longrightarrow> distinct (map rid (stored (execute cfg w i st)))))"
proof (cases "\<not> can_manage_messages i \<or> Enabled cfg = No")
  case True
  then show ?thesis by (auto simp: execute_def)
next
  case False
  show ?thesis
  proof (cases "sub i")
    case (Create raw opt)
    with False execute_create_stored[of cfg w i raw opt st] show ?thesis
      by (auto simp: execute_def)
  next
    case Delete
    with False execute_delete_stored[of w i st] set_findOneAndDelete[of "interaction_channel i" st]
      rids_findOneAndDelete[of st "interaction_channel i"]
    show ?thesis by (auto simp: execute_def)
  next
    case List
    with False execute_list_stored[of w st] show ?thesis
      by (simp add: execute_def)
  qed
qed

lemma execute_keeps_records:
  assumes "distinct (map rid st)" and "findById j (stored (execute cfg w i st)) = Some r'"
    and "findById j st = Some r"
  shows "r' = r"
proof -
  consider (created) new where "stored (execute cfg w i st) = st @ [new]"
    | (pruned) "set (stored (execute cfg w i st)) \<subseteq> set st"
    using execute_stored_cases[of cfg w i st] by blast
  then show ?thesis
  proof cases
    case created
    with assms show ?thesis by (simp add: findById_append)
  next
    case pruned
    from findById_sublist[OF assms(1) pruned assms(2)] assms(3) show ?thesis by simp
  qed
qed

lemma execute_rids: "distinct (map rid st) \<Longrightarrow> distinct (map rid (stored (execute cfg w i st)))"
proof -
  assume d: "distinct (map rid st)"
  consider (created) new where "stored (execute cfg w i st) = st @ [new]" "rid new = fresh_rid st"
    | (pruned) "distinct (map rid (stored (execute cfg w i st)))"
    using execute_stored_cases[of cfg w i st] d by blast
  then show ?thesis
  proof cases
    case created
    have "rid new \<notin> rid ` set st"
      using fresh_rid_above[of _ st] created(2) by force
    with d created(1) show ?thesis by simp
  next
    case pruned
    then show ?thesis .
  qed
qed

lemma ensure_record_counts:
  "map_option msgCount (findById j (sw_records (ensure_record api cfg rec s)))
     = map_option msgCount (findById j (sw_records s))"
  by (auto simp: ensure_record_def Let_def findById_update option.map_comp comp_def
           split: prod.splits sum.splits)

lemma ensure_record_rids:
  "map rid (sw_records (ensure_record api cfg rec s)) = map rid (sw_records s)"
  by (auto simp: ensure_record_def Let_def map_rid_update split: prod.splits sum.splits)

lemma fold_ensure_counts:
  "map_option msgCount (findById j (sw_records (fold (ensure_record api cfg) recs s)))
     = map_option msgCount (findById j (sw_records s))"
  by (induction recs arbitrary: s) (simp_all add: ensure_record_counts)

lemma fold_ensure_rids:
  "map rid (sw_records (fold (ensure_record api cfg) recs s)) = map rid (sw_records s)"
  by (induction recs arbitrary: s) (simp_all add: ensure_record_rids)

lemma sweep_counts:
  "map_option msgCount (findById j (sw_records (ensureWebhooks api cfg st p)))
     = map_option msgCount (findById j st)"
  by (simp add: ensureWebhooks_def fold_ensure_counts)

lemma step_keeps_ids_distinct:
  "distinct (map rid (sys_records s)) \<Longrightarrow> distinct (map rid (sys_records (step cfg op s)))"
  by (cases op)
     (simp_all add: Let_def messageCreate_rids ensureWebhooks_def fold_ensure_rids execute_rids)

text \<open>
  Claim C4. Over one run of the handler, the sweep or the command, a record that is in
  the store before and after (by its \<^verbatim>\<open>_id\<close>) has its count set to 0 when the run posts
  a new artifact for it, raised by exactly one when the run tracks a message for it
  without posting, and unchanged in every other case. So the count becomes 0 only by a
  successful repost and never goes down otherwise.
\<close>

theorem msgCount_steps:
  assumes "distinct (map rid (sys_records s))"
    and "findById i (sys_records s) = Some r"
    and "findById i (sys_records (step cfg op s)) = Some r'"
  shows "msgCount r' =
           (if op_posts cfg op s r then 0
            else if op_tracks op s r then msgCount r + 1
            else msgCount r)"
proof (cases op)
  case (Message w m)
  let ?h = "\<lparr>records = sys_records s, cooldowns = sys_cooldowns s\<rparr>"
  have after: "findById i (records (after (messageCreate cfg w m ?h))) = Some r'"
    using assms(3) Message by (simp add: Let_def)
  show ?thesis
  proof (cases "tracks m (sys_records s) r")
    case True
    then have t: "\<not> ignored m" "findOne (channel_id m) (records ?h) = Some r"
      by (simp_all add: tracks_def)
    have "rid r = i" using findById_mem[OF assms(2)] by simp
    with handler_effect_by_id[OF t, of i cfg w] after assms(2)
    have "r' = (case posts cfg w m ?h r of
                  None \<Rightarrow> r\<lparr>msgCount := msgCount r + 1\<rparr>
                | Some a \<Rightarrow> r\<lparr>msgCount := 0, messageId := Some a\<rparr>)"
      by simp
    with True Message show ?thesis by (cases "posts cfg w m ?h r") simp_all
  next
    case False
    have not_posted: "posts cfg w m ?h r = None"
      using False by (simp add: posts_def)
    have "r' = r"
    proof (cases "ignored m \<or> findOne (channel_id m) (sys_records s) = None")
      case True
      then have "after (messageCreate cfg w m ?h) = ?h"
        by (intro messageCreate_untracked) simp
      with after assms(2) show ?thesis by simp
    next
      case False
      then obtain sm where t: "\<not> ignored m" "findOne (channel_id m) (records ?h) = Some sm"
        by auto
      have "sm \<in> set (sys_records s)"
        using findOne_mem[of "channel_id m" "sys_records s" sm] t(2) by simp
      from findById_self[OF assms(1) this] have "findById (rid sm) (sys_records s) = Some sm" .
      moreover have "sm \<noteq> r"
        using \<open>\<not> tracks m (sys_records s) r\<close> t by (auto simp: tracks_def)
      ultimately have "i \<noteq> rid sm"
        using assms(2) by auto
      with handler_effect_by_id[OF t, of i cfg w] after assms(2) show ?thesis by simp
    qed
    with False not_posted Message show ?thesis by simp
  qed
next
  case (Sweep api)
  with assms(3) have "findById i (sw_records (ensureWebhooks api cfg (sys_records s) (sys_platform s))) = Some r'"
    by (simp add: Let_def)
  with sweep_counts[of i api cfg "sys_records s" "sys_platform s"] assms(2)
  have "msgCount r' = msgCount r" by simp
  with Sweep show ?thesis by simp
next
  case (Command w c)
  with assms(3) have "findById i (stored (execute cfg w c (sys_records s))) = Some r'"
    by simp
  from execute_keeps_records[OF assms(1) this assms(2)] Command show ?thesis by simp
qed

theorem msgCount_steps_witness:
  "(let s = \<lparr>sys_records = [rules\<lparr>msgCount := 5\<rparr>, archived], sys_cooldowns = Map.empty,
             sys_platform = ()\<rparr>
    in distinct (map rid (sys_records s))
       \<and> findById 1 (sys_records s) = Some (rules\<lparr>msgCount := 5\<rparr>)
       \<and> findById 1 (sys_records (step cfg5 (Message (calm 0) from_alice) s))
           = Some (rules\<lparr>msgCount := 0, messageId := Some ''m1''\<rparr>)
       \<and> op_posts cfg5 (Message (calm 0) from_alice) s (rules\<lparr>msgCount := 5\<rparr>)
       \<and> findById 2 (sys_records s) = Some archived
       \<and> findById 2 (sys_records (step cfg5 (Message (calm 0) from_alice) s)) = Some archived
       \<and> \<not> op_tracks (Message (calm 0) from_alice) s archived
       \<and> findById 1 (sys_records (step cfg5 (Message (calm 0) from_alice)
                       (s\<lparr>sys_records := [rules, archived]\<rparr>)))
           = Some (rules\<lparr>msgCount := 1\<rparr>)
       \<and> op_tracks (Message (calm 0) from_alice) (s\<lparr>sys_records := [rules, archived]\<rparr>) rules
       \<and> \<not> op_posts cfg5 (Message (calm 0) from_alice) (s\<lparr>sys_records := [rules, archived]\<rparr>) rules)"
proof -
  let ?s = "\<lparr>sys_records = [rules\<lparr>msgCount := 5\<rparr>, archived], sys_cooldowns = Map.empty,
            sys_platform = ()\<rparr>"
  let ?op = "Message (calm 0) from_alice :: unit operation"
  have d: "distinct (map rid (sys_records ?s))"
    by (simp add: rules_def archived_def)
  have b: "findById 1 (sys_records ?s) = Some (rules\<lparr>msgCount := 5\<rparr>)"
    by (simp add: findById_def rules_def)
  have a: "findById 1 (sys_records (step cfg5 ?op ?s))
      = Some (rules\<lparr>msgCount := 0, messageId := Some ''m1''\<rparr>)"
    by (simp add: findById_def sample_defs handler_defs)
  have rest: "op_posts cfg5 ?op ?s (rules\<lparr>msgCount := 5\<rparr>)"
    "findById 2 (sys_records ?s) = Some archived"
    "findById 2 (sys_records (step cfg5 ?op ?s)) = Some archived"
    "\<not> op_tracks ?op ?s archived"
    "findById 1 (sys_records (step cfg5 ?op (?s\<lparr>sys_records := [rules, archived]\<rparr>)))
      = Some (rules\<lparr>msgCount := 1\<rparr>)"
    "op_tracks ?op (?s\<lparr>sys_records := [rules, archived]\<rparr>) rules"
    "\<not> op_posts cfg5 ?op (?s\<lparr>sys_records := [rules, archived]\<rparr>) rules"
    by (simp_all add: findById_def sample_defs handler_defs archived_def posts_def tracks_def)
  show ?thesis
    using d b a rest msgCount_steps[OF d b a] by (simp add: Let_def)
qed

section \<open>Version comparison\<close>

lemma number_less_irrefl: "\<not> number_less x x"
  by (cases x) simp_all

lemma componentwise_refl: "componentwise xs xs = 0"
  by (induction xs) (simp_all add: number_less_irrefl)




lemma componentwise_range: "componentwise cs ls \<in> {- 1, 0, 1}"
  by (induction cs ls rule: componentwise.induct) simp_all

text \<open>Digits beyond what a double holds are rounded before the comparison.\<close>

lemma rounded_components:
  "parseVersion ''1.9007199254740993'' = [Finite 1, Finite 9007199254740992]"
  "compareVersions ''1.9007199254740993'' (JStr ''1.9007199254740992'') = Inr 0"
  by code_simp+

lemma parseVersion_examples:
  "parseVersion ''v1.2.3'' = [Finite 1, Finite 2, Finite 3]"
  "parseVersion ''1.x. 7'' = [Finite 1, Finite 0, Finite 7]"
  "parseVersion ''1.-2'' = [Finite 1, Finite (- 2)]"
  "compareVersions ''1.2'' (JStr ''1.2.0'') = Inr 0"
  "compareVersions ''1.2'' (JStr ''1.10'') = Inr (- 1)"
  by code_simp+

section \<open>The retry loop\<close>



lemma fetch_from_pending:
  "a \<le> retries os \<Longrightarrow> outcome_of os net url k = Pending \<Longrightarrow>
   fetch_from os net url hs a k = (None, [Request url hs], k + 1)"
  by (subst fetch_from.simps) (simp add: outcome_of_def attempt_events_def)

lemma fetch_from_last:
  "a = retries os \<Longrightarrow> attempt_error (outcome_of os net url k) = Some e \<Longrightarrow>
   fetch_from os net url hs a k =
     (Some (Inl (FailedAfter (retries os) e)),
      attempt_events url hs (timeout os) (outcome_of os net url k), k + 1)"
  by (subst fetch_from.simps) (simp add: outcome_of_def Let_def)

lemma fetch_from_retry:
  "a < retries os \<Longrightarrow> attempt_error (outcome_of os net url k) = Some e \<Longrightarrow>
   fetch_from os net url hs a k =
     (case fetch_from os net url hs (a + 1) (k + 1) of
        (r, later, k') \<Rightarrow>
          (r, attempt_events url hs (timeout os) (outcome_of os net url k)
                @ Sleep (timer_delay (1000 * a)) # later, k'))"
  by (subst fetch_from.simps) (simp add: outcome_of_def Let_def)





lemma make_options_given:
  "retries (make_options u) = (case given_retries u of None \<Rightarrow> 2 | Some n \<Rightarrow> n)"
  "timeout (make_options u) = (case given_timeout u of None \<Rightarrow> 10000 | Some n \<Rightarrow> n)"
  by (simp_all add: make_options_def spread_def num_or_def split: option.splits)

lemma sticky_options: "retries (opts sticky_checker) = 2" "timeout (opts sticky_checker) = 10000"
  by (simp_all add: sticky_checker_def new_checker_def make_options_given no_options_def)




lemma fetchWithRetry_first_pending:
  assumes "1 \<le> retries (opts chk)" and "outcome_of (opts chk) net url k = Pending"
  shows "fetchWithRetry chk net url hs k = (None, [Request url hs], k + 1)"
  using assms by (simp add: fetchWithRetry_def fetch_from_pending)

section \<open>The request timeout\<close>

text \<open>A request that gets no answer is aborted after the timeout, and the call fails.\<close>

lemma unanswered_request_is_aborted:
  "fetchWithRetry sticky_checker mute ''u'' [] 0
     = (Some (Inl (FailedAfter 2 AbortError)),
        [Request ''u'' [], Abort 10000, Sleep 1000, Request ''u'' [], Abort 10000], 2)"
proof -
  have o: "outcome_of (opts sticky_checker) mute ''u'' k = Aborted" for k
    by (simp add: outcome_of_def mute_def)
  have last: "fetch_from (opts sticky_checker) mute ''u'' [] 2 1
      = (Some (Inl (FailedAfter 2 AbortError)), [Request ''u'' [], Abort 10000], 2)"
    using fetch_from_last[of 2 "opts sticky_checker" mute "''u''" 1 AbortError "[]"]
    by (simp add: o sticky_options attempt_events_def timer_delay_def)
  have "fetch_from (opts sticky_checker) mute ''u'' [] 1 0
      = (Some (Inl (FailedAfter 2 AbortError)),
         [Request ''u'' [], Abort 10000, Sleep 1000, Request ''u'' [], Abort 10000], 2)"
    using fetch_from_retry[of 1 "opts sticky_checker" mute "''u''" 0 AbortError "[]"] last
    by (simp add: o sticky_options attempt_events_def timer_delay_def)
  then show ?thesis by (simp add: fetchWithRetry_def)
qed

text \<open>
  Claim C9, on the code. The checker built without options has a timeout of 10000 ms.
  Asked of a registry that sends the head of its response after 5 ms and never finishes
  the body, \<^verbatim>\<open>fetchWithRetry\<close> makes one request, never aborts it and never settles: the
  timer of line 110 is cleared at line 123, before the body is read at line 129.
\<close>

theorem stalled_body_is_never_aborted:
  "timeout (opts sticky_checker) = 10000
   \<and> stalling 0 ''u'' = RespondsAt 5 True 200 ''OK'' BodyStalls
   \<and> fetchWithRetry sticky_checker stalling ''u'' [] 0 = (None, [Request ''u'' []], 1)"
proof -
  have "outcome_of (opts sticky_checker) stalling ''u'' 0 = Pending"
    by (simp add: outcome_of_def stalling_def sticky_options timer_delay_def)
  then have "fetchWithRetry sticky_checker stalling ''u'' [] 0 = (None, [Request ''u'' []], 1)"
    using fetchWithRetry_first_pending[of sticky_checker stalling "''u''" 0 "[]"]
    by (simp add: sticky_options)
  then show ?thesis by (simp add: sticky_options stalling_def)
qed

section \<open>The update check\<close>























subsection \<open>The update check on sample registries\<close>





lemma skipped_space:
  "parseInt10 [CHR 0xA0, CHR ''7''] = Some (Finite 7)"
  by code_simp






end
